theory Spec2Isabelle
  imports
    Main
    "HOL-Library.Word"
    "HOL-Library.Sublist"
    "HOL-Library.Multiset"
    "HOL-Library.Product_Lexorder"
    "HOL-Library.Option_ord"
begin

section \<open>Drift FM: playlist generation, response cache and play tracking\<close>

text \<open>
  A shallow embedding of the Go packages \<open>internal/inventory\<close>, \<open>internal/radio\<close>,
  \<open>internal/cache\<close> and \<open>internal/api\<close>. Mutexes are not modelled: every operation is
  one atomic step on an explicit state, which is what the locks give to a sequential
  observer. A point in time (\<open>time.Time\<close>) is an integer number of nanoseconds.
\<close>

type_synonym time = int

subsection \<open>scripts/migrations/schema.sql: the tables\<close>

text \<open>
  One record per table row, fields named after the columns (prefixed by the table).
  \<open>play_stats\<close> has \<open>file_path\<close> as its primary key and is a map from it.
  \<open>listen_events_seq\<close> is the AUTOINCREMENT counter of \<open>listen_events\<close>.
\<close>

record tracks_row =
  t_id :: int
  t_file_path :: string
  t_title :: "string option"
  t_artist :: "string option"
  t_mood :: string
  t_energy :: string
  t_tempo_bpm :: "int option"
  t_has_vocals :: int
  t_musical_key :: "string option"
  t_intensity :: "int option"
  t_time_affinity :: "string option"
  t_lyrics :: "string option"
  t_duration_seconds :: int
  t_status :: string
  t_created_at :: time

record play_stats_row =
  ps_play_count :: int
  ps_last_played_at :: "time option"
  ps_created_at :: time

record listen_events_row =
  le_id :: int
  le_track_id :: int
  le_mood :: string
  le_event_type :: string
  le_listen_seconds :: int
  le_playlist_position :: "int option"
  le_created_at :: time

record DB =
  tracks_tbl :: "tracks_row list"
  play_stats_tbl :: "string \<rightharpoonup> play_stats_row"
  listen_events_tbl :: "listen_events_row list"
  listen_events_seq :: int

text \<open>
  Every call into \<open>database/sql\<close> can return an error (I/O failure, lock-wait timeout,
  a constraint of the engine). Which calls fail is an input of the model.
\<close>

record Faults =
  GetByMood_fails :: bool
  GetByID_fails :: bool
  BeginTx_fails :: bool
  UpdatePlayStatsTx_fails :: bool
  RecordListenEventTx_fails :: bool
  Commit_fails :: bool

datatype error = Err string

subsection \<open>inventory/track.go\<close>

record Track =
  ID :: int
  FilePath :: string
  AudioURL :: string
  Title :: "string option"
  Artist :: "string option"
  Mood :: string
  Energy :: string
  TempoBPM :: "int option"
  HasVocals :: bool
  MusicalKey :: "string option"
  Intensity :: "int option"
  TimeAffinity :: "string option"
  Lyrics :: "string option"
  DurationSeconds :: int
  Status :: string
  CreatedAt :: time
  PlayCount :: int
  LastPlayedAt :: "time option"

definition StatusApproved :: string where
  "StatusApproved = ''approved''"

text \<open>
  The fields of \<open>ListenEvent\<close> carry the prefix \<open>Evt\<close>, those of \<open>Track\<close> the
  names of the source (a field name is a constant of the theory, and \<open>Mood\<close> is a
  field of both structs).
\<close>

record ListenEvent =
  EvtTrackID :: int
  EvtMood :: string
  EvtEventType :: string
  EvtListenSeconds :: int
  EvtPlaylistPosition :: "int option"

definition EventPlay :: string where "EventPlay = ''play''"
definition EventSkip :: string where "EventSkip = ''skip''"
definition EventComplete :: string where "EventComplete = ''complete''"

subsection \<open>inventory: the repository\<close>

text \<open>
  \<open>scanTrackRow\<close> followed by \<open>toTrack\<close>, on one row of
  \<open>tracks t LEFT JOIN play_stats ps ON t.file_path = ps.file_path\<close>:
  \<open>COALESCE(ps.play_count, 0)\<close> and a nullable \<open>ps.last_played_at\<close>.
\<close>

definition scanTrackRow :: "DB \<Rightarrow> tracks_row \<Rightarrow> Track" where
  "scanTrackRow db row =
     \<lparr>ID = t_id row,
      FilePath = t_file_path row,
      AudioURL = [],
      Title = t_title row,
      Artist = t_artist row,
      Mood = t_mood row,
      Energy = t_energy row,
      TempoBPM = t_tempo_bpm row,
      HasVocals = (t_has_vocals row = 1),
      MusicalKey = t_musical_key row,
      Intensity = t_intensity row,
      TimeAffinity = t_time_affinity row,
      Lyrics = t_lyrics row,
      DurationSeconds = t_duration_seconds row,
      Status = t_status row,
      CreatedAt = t_created_at row,
      PlayCount = (case play_stats_tbl db (t_file_path row) of None \<Rightarrow> 0 | Some ps \<Rightarrow> ps_play_count ps),
      LastPlayedAt = (case play_stats_tbl db (t_file_path row) of None \<Rightarrow> None | Some ps \<Rightarrow> ps_last_played_at ps)\<rparr>"

text \<open>\<open>SELECT ... WHERE t.id = ?\<close> through \<open>QueryRow\<close>: the first matching row, or no row.\<close>

definition GetByID :: "DB \<Rightarrow> Faults \<Rightarrow> int \<Rightarrow> error + Track option" where
  "GetByID db faults i =
     (if GetByID_fails faults then Inl (Err ''failed to get track'')
      else case filter (\<lambda>row. t_id row = i) (tracks_tbl db) of
             [] \<Rightarrow> Inr None
           | row # _ \<Rightarrow> Inr (Some (scanTrackRow db row)))"

text \<open>
  \<open>WHERE t.mood = ? AND t.status = ?\<close>, with \<open>AND t.has_vocals = 0\<close> when
  \<open>instrumentalOnly\<close>, then
  \<open>ORDER BY COALESCE(ps.play_count, 0) ASC, ps.last_played_at ASC NULLS FIRST\<close>.
  The engine leaves the order of rows with equal keys open; the model keeps the order of the
  table there (\<open>sort_key\<close> is stable). In the order on \<open>option\<close>, \<open>None\<close> comes first.
\<close>

definition eligible :: "string \<Rightarrow> bool \<Rightarrow> tracks_row \<Rightarrow> bool" where
  "eligible m instrumentalOnly row =
     (t_mood row = m \<and> t_status row = StatusApproved \<and>
      (if instrumentalOnly then t_has_vocals row = 0 else True))"

definition GetByMood :: "DB \<Rightarrow> Faults \<Rightarrow> string \<Rightarrow> bool \<Rightarrow> error + Track list" where
  "GetByMood db faults m instrumentalOnly =
     (if GetByMood_fails faults then Inl (Err ''failed to query tracks'')
      else Inr (sort_key (\<lambda>t. (PlayCount t, LastPlayedAt t))
                  (map (scanTrackRow db) (filter (eligible m instrumentalOnly) (tracks_tbl db)))))"

text \<open>
  The write path. A transaction (\<open>*sql.Tx\<close>) is the database as the transaction sees
  it: \<open>BeginTx\<close> starts from the committed database, the \<open>Tx\<close> methods change the
  transaction's view only, \<open>Commit\<close> makes that view the committed database, and
  \<open>Rollback\<close> (or a failed \<open>Commit\<close>) discards it.
  Timestamps are written with a resolution of one second (\<open>time.RFC3339\<close>,
  \<open>CURRENT_TIMESTAMP\<close>).
\<close>

type_synonym Tx = DB

definition RFC3339 :: "time \<Rightarrow> time" where
  "RFC3339 t = (t div 1000000000) * 1000000000"

definition BeginTx :: "DB \<Rightarrow> Faults \<Rightarrow> error + Tx" where
  "BeginTx db faults =
     (if BeginTx_fails faults then Inl (Err ''failed to begin transaction'') else Inr db)"

text \<open>
  \<open>INSERT INTO play_stats ... SELECT file_path, 1, ? FROM tracks WHERE id = ?
  ON CONFLICT(file_path) DO UPDATE SET play_count = play_count + 1,
  last_played_at = excluded.last_played_at\<close>, for one selected row.
\<close>

definition upsertPlayStats :: "time \<Rightarrow> Tx \<Rightarrow> tracks_row \<Rightarrow> Tx" where
  "upsertPlayStats now tx row =
     tx\<lparr>play_stats_tbl := (play_stats_tbl tx)(t_file_path row \<mapsto>
          (case play_stats_tbl tx (t_file_path row) of
             None \<Rightarrow> \<lparr>ps_play_count = 1, ps_last_played_at = Some (RFC3339 now),
                       ps_created_at = RFC3339 now\<rparr>
           | Some ps \<Rightarrow> ps\<lparr>ps_play_count := ps_play_count ps + 1,
                           ps_last_played_at := Some (RFC3339 now)\<rparr>))\<rparr>"

definition UpdatePlayStatsTx :: "Tx \<Rightarrow> Faults \<Rightarrow> time \<Rightarrow> int \<Rightarrow> error + Tx" where
  "UpdatePlayStatsTx tx faults now i =
     (if UpdatePlayStatsTx_fails faults then Inl (Err ''failed to update play stats'')
      else case filter (\<lambda>row. t_id row = i) (tracks_tbl tx) of
             [] \<Rightarrow> Inl (Err ''failed to find track'')
           | row # rows \<Rightarrow> Inr (foldl (upsertPlayStats now) tx (row # rows)))"

definition RecordListenEventTx :: "Tx \<Rightarrow> Faults \<Rightarrow> time \<Rightarrow> ListenEvent \<Rightarrow> error + Tx" where
  "RecordListenEventTx tx faults now evt =
     (if RecordListenEventTx_fails faults then Inl (Err ''failed to record listen event'')
      else Inr (tx\<lparr>listen_events_tbl := listen_events_tbl tx @
                     [\<lparr>le_id = listen_events_seq tx + 1,
                       le_track_id = EvtTrackID evt,
                       le_mood = EvtMood evt,
                       le_event_type = EvtEventType evt,
                       le_listen_seconds = EvtListenSeconds evt,
                       le_playlist_position = EvtPlaylistPosition evt,
                       le_created_at = RFC3339 now\<rparr>],
                   listen_events_seq := listen_events_seq tx + 1\<rparr>))"

definition Commit :: "Tx \<Rightarrow> Faults \<Rightarrow> error + DB" where
  "Commit tx faults = (if Commit_fails faults then Inl (Err ''commit failed'') else Inr tx)"

subsection \<open>math/rand: the private pseudo-random source of a Radio\<close>

text \<open>
  The generator of \<open>math/rand\<close> is outside the repository. It is modelled as an
  arbitrary sequence of raw draws and a read position; \<open>Intn n\<close> consumes one draw and
  returns a value in \<open>[0, n)\<close>. Every sequence of in-range results is produced by some
  sequence of draws, so nothing is assumed about the generator beyond the range of
  \<open>Intn\<close>. (\<open>Intn\<close> panics for \<open>n \<le> 0\<close>; its only call site passes \<open>i + 1\<close> with
  \<open>i > 0\<close>.)
\<close>

record rng =
  draws :: "nat \<Rightarrow> nat"
  pos :: nat

definition Intn :: "rng \<Rightarrow> nat \<Rightarrow> nat \<times> rng" where
  "Intn g n = (draws g (pos g) mod n, g\<lparr>pos := pos g + 1\<rparr>)"

subsection \<open>radio/radio.go\<close>

definition DefaultMaxRecent :: int where
  "DefaultMaxRecent = 3"

record Radio =
  mood :: string
  recentlyPlayed :: "int list"
  maxRecent :: int
  rng :: rng

definition NewRadio :: "string \<Rightarrow> rng \<Rightarrow> Radio" where
  "NewRadio m g = \<lparr>mood = m, recentlyPlayed = [], maxRecent = DefaultMaxRecent, rng = g\<rparr>"

text \<open>
  The partition loop of \<open>shuffleWithRecencyLocked\<close>: each track is appended to \<open>recent\<close>
  when its ID is in \<open>recentSet\<close>, to \<open>nonRecent\<close> otherwise.
\<close>

fun partitionRecent ::
  "int set \<Rightarrow> Track list \<Rightarrow> Track list \<Rightarrow> Track list \<Rightarrow> Track list \<times> Track list" where
  "partitionRecent recentSet [] nonRecent recent = (nonRecent, recent)"
| "partitionRecent recentSet (track # rest) nonRecent recent =
     (if ID track \<in> recentSet
      then partitionRecent recentSet rest nonRecent (recent @ [track])
      else partitionRecent recentSet rest (nonRecent @ [track]) recent)"

text \<open>
  The Fisher-Yates loop \<open>for i := len(nonRecent) - 1; i > 0; i--\<close>: the first argument
  is the loop variable \<open>i\<close>; the loop ends at \<open>i = 0\<close>.
\<close>

fun fisherYates :: "nat \<Rightarrow> 'a list \<Rightarrow> rng \<Rightarrow> 'a list \<times> rng" where
  "fisherYates 0 nonRecent g = (nonRecent, g)"
| "fisherYates (Suc k) nonRecent g =
     (let i = Suc k;
          (j, g') = Intn g (i + 1)
      in fisherYates k (nonRecent[i := nonRecent ! j, j := nonRecent ! i]) g')"

definition shuffleWithRecencyLocked :: "Radio \<Rightarrow> Track list \<Rightarrow> Track list \<times> Radio" where
  "shuffleWithRecencyLocked r tracks =
     (let recentSet = set (recentlyPlayed r);
          (nonRecent, recent) = partitionRecent recentSet tracks [] [];
          (shuffled, g') = fisherYates (length nonRecent - 1) nonRecent (rng r)
      in (shuffled @ recent, r\<lparr>rng := g'\<rparr>))"

definition RecordPlay :: "Radio \<Rightarrow> int \<Rightarrow> Radio" where
  "RecordPlay r trackID =
     (if trackID \<in> set (recentlyPlayed r) then r
      else
        let appended = recentlyPlayed r @ [trackID]
        in if int (length appended) > maxRecent r
           then r\<lparr>recentlyPlayed := drop 1 appended\<rparr>
           else r\<lparr>recentlyPlayed := appended\<rparr>)"

text \<open>
  \<open>Radio.GetPlaylist\<close>: the store's error is passed on, an empty result is returned as it
  is, anything else is copied and shuffled. The Radio comes back with its generator advanced.
\<close>

definition GetPlaylist :: "Radio \<Rightarrow> DB \<Rightarrow> Faults \<Rightarrow> bool \<Rightarrow> (error + Track list) \<times> Radio" where
  "GetPlaylist r db faults instrumentalOnly =
     (case GetByMood db faults (mood r) instrumentalOnly of
        Inl err \<Rightarrow> (Inl err, r)
      | Inr tracks \<Rightarrow>
          if length tracks = 0 then (Inr tracks, r)
          else let (shuffled, r') = shuffleWithRecencyLocked r tracks
               in (Inr shuffled, r'))"

subsection \<open>radio/manager.go\<close>

text \<open>
  The registry of one Radio per mood. \<open>GetRadio\<close> creates a missing Radio; its generator
  is seeded from the clock in the source and is an argument here.
\<close>

record Manager =
  radios :: "string \<rightharpoonup> Radio"

definition NewManager :: Manager where
  "NewManager = \<lparr>radios = Map.empty\<rparr>"

definition GetRadio :: "Manager \<Rightarrow> rng \<Rightarrow> string \<Rightarrow> Radio \<times> Manager" where
  "GetRadio m seed md =
     (case radios m md of
        Some radio \<Rightarrow> (radio, m)
      | None \<Rightarrow> (let radio = NewRadio md seed in (radio, m\<lparr>radios := (radios m)(md \<mapsto> radio)\<rparr>)))"

definition Manager_GetPlaylist ::
  "Manager \<Rightarrow> rng \<Rightarrow> DB \<Rightarrow> Faults \<Rightarrow> string \<Rightarrow> bool \<Rightarrow> (error + Track list) \<times> Manager" where
  "Manager_GetPlaylist m seed db faults md instrumentalOnly =
     (let (radio, m') = GetRadio m seed md;
          (res, radio') = GetPlaylist radio db faults instrumentalOnly
      in (res, m'\<lparr>radios := (radios m')(md \<mapsto> radio')\<rparr>))"

definition Manager_RecordPlay :: "Manager \<Rightarrow> rng \<Rightarrow> string \<Rightarrow> int \<Rightarrow> Manager" where
  "Manager_RecordPlay m seed md trackID =
     (let (radio, m') = GetRadio m seed md
      in m'\<lparr>radios := (radios m')(md \<mapsto> RecordPlay radio trackID)\<rparr>)"

subsection \<open>cache/cache.go\<close>

definition DefaultTTL :: int where
  "DefaultTTL = 5 * 60 * 1000000000"

definition KeyMoodsList :: string where
  "KeyMoodsList = ''moods:list''"

definition PlaylistKey :: "string \<Rightarrow> string" where
  "PlaylistKey m = ''playlist:'' @ m"

definition HasPrefix :: "string \<Rightarrow> string \<Rightarrow> bool" where
  "HasPrefix s p = prefix p s"

definition After :: "time \<Rightarrow> time \<Rightarrow> bool" where
  "After t u = (u < t)"

record 'v entry =
  val :: 'v
  expiresAt :: time

text \<open>The counters are \<open>atomic.Int64\<close>: 64 bits, wrapping.\<close>

record 'v Cache =
  items :: "string \<rightharpoonup> 'v entry"
  hits :: "64 word"
  misses :: "64 word"

definition New :: "'v Cache" where
  "New = \<lparr>items = Map.empty, hits = 0, misses = 0\<rparr>"

definition evictExpired :: "'v Cache \<Rightarrow> time \<Rightarrow> 'v Cache" where
  "evictExpired c now =
     c\<lparr>items := (\<lambda>k. case items c k of
                        None \<Rightarrow> None
                      | Some e \<Rightarrow> if After now (expiresAt e) then None else Some e)\<rparr>"

text \<open>\<open>Get\<close> returns \<open>(nil, false)\<close> as \<open>None\<close> and \<open>(e.value, true)\<close> as \<open>Some\<close>.\<close>

definition Cache_Get :: "'v Cache \<Rightarrow> time \<Rightarrow> string \<Rightarrow> 'v option \<times> 'v Cache" where
  "Cache_Get c now key =
     (case items c key of
        None \<Rightarrow> (None, c\<lparr>misses := misses c + 1\<rparr>)
      | Some e \<Rightarrow>
          if After now (expiresAt e) then (None, c\<lparr>misses := misses c + 1\<rparr>)
          else (Some (val e), c\<lparr>hits := hits c + 1\<rparr>))"

definition Cache_Set :: "'v Cache \<Rightarrow> time \<Rightarrow> string \<Rightarrow> 'v \<Rightarrow> 'v Cache" where
  "Cache_Set c now key v =
     c\<lparr>items := (items c)(key \<mapsto> \<lparr>val = v, expiresAt = now + DefaultTTL\<rparr>)\<rparr>"

text \<open>
  \<open>InvalidateMoods\<close>: \<open>delete(c.items, KeyMoodsList)\<close>, then the loop over the map that
  deletes every key with the prefix \<open>playlist:\<close>.
\<close>

definition InvalidateMoods :: "'v Cache \<Rightarrow> 'v Cache" where
  "InvalidateMoods c =
     (let items1 = (items c)(KeyMoodsList := None)
      in c\<lparr>items := (\<lambda>k. if HasPrefix k ''playlist:'' then None else items1 k)\<rparr>)"

subsection \<open>api: the handler\<close>

text \<open>The fields of \<open>PlaylistTrack\<close> carry the prefix \<open>PT\<close>.\<close>

record PlaylistTrack =
  PT_ID :: int
  PT_FilePath :: string
  PT_AudioURL :: string
  PT_Title :: "string option"
  PT_Artist :: "string option"
  PT_Energy :: string
  PT_Intensity :: "int option"
  PT_Lyrics :: "string option"

definition toPlaylistTrack :: "Track \<Rightarrow> PlaylistTrack" where
  "toPlaylistTrack t =
     \<lparr>PT_ID = ID t, PT_FilePath = FilePath t, PT_AudioURL = AudioURL t, PT_Title = Title t,
      PT_Artist = Artist t, PT_Energy = Energy t, PT_Intensity = Intensity t,
      PT_Lyrics = Lyrics t\<rparr>"

definition toPlaylistTracks :: "Track list \<Rightarrow> PlaylistTrack list" where
  "toPlaylistTracks ts = map toPlaylistTrack ts"

text \<open>
  What the handler stores in the cache (\<open>any\<close> in the source): the mood list of
  \<open>listMoods\<close>, whose element type is left open here, or a slim playlist.
\<close>

datatype 'm any = MoodInfos "'m list" | PlaylistTracks "PlaylistTrack list"

text \<open>
  What a handler writes: \<open>http.Error(w, msg, code)\<close>, a JSON body with status 200 and
  its \<open>X-Cache\<close> header, or status 200 with the body \<open>ok\<close>.
\<close>

datatype 'm response =
    Error nat string
  | JSON string "'m any"
  | OK

text \<open>
  The handler's dependencies: the repository (the committed database), the radio
  (the \<open>Manager\<close>), the audio resolver (an interface: any function from a file path to an
  URL and an optional error), the cache, and the \<open>playsTotal\<close> counter of the
  process-wide metrics (\<open>uint64\<close>, wrapping).
\<close>

record 'm Handler =
  repo :: DB
  radio :: Manager
  audioResolver :: "string \<Rightarrow> string \<times> error option"
  cache :: "'m any Cache"
  playsTotal :: "64 word"

text \<open>
  What a request takes from outside: the clock, which storage calls fail, and the seed of
  a Radio created during the request.
\<close>

record Env =
  clock :: time
  faults :: Faults
  seed :: rng

definition validMoods :: "string \<Rightarrow> bool" where
  "validMoods m = (m \<in> set [''focus'', ''calm'', ''late_night'', ''energize''])"

definition TrimPrefix :: "string \<Rightarrow> string \<Rightarrow> string" where
  "TrimPrefix s p = (if prefix p s then drop (length p) s else s)"

text \<open>\<open>strings.Split(s, "/")\<close>, for a separator of one character.\<close>

fun Split :: "string \<Rightarrow> char \<Rightarrow> string list" where
  "Split [] sep = [[]]"
| "Split (c # cs) sep =
     (if c = sep then [] # Split cs sep
      else case Split cs sep of
             [] \<Rightarrow> [[c]]
           | part # parts \<Rightarrow> (c # part) # parts)"

definition playlistCacheKey :: "string \<Rightarrow> bool \<Rightarrow> string" where
  "playlistCacheKey m instrumentalOnly =
     (if instrumentalOnly then PlaylistKey m @ '':instrumental'' else PlaylistKey m)"

definition resolveAudioURLs :: "(string \<Rightarrow> string \<times> error option) \<Rightarrow> Track list \<Rightarrow> Track list" where
  "resolveAudioURLs resolver ts = map (\<lambda>t. t\<lparr>AudioURL := fst (resolver (FilePath t))\<rparr>) ts"

definition getPlaylist :: "'m Handler \<Rightarrow> Env \<Rightarrow> string \<Rightarrow> bool \<Rightarrow> 'm response \<times> 'm Handler" where
  "getPlaylist h env m instrumentalOnly =
     (let cacheKey = playlistCacheKey m instrumentalOnly;
          (cached, c1) = Cache_Get (cache h) (clock env) cacheKey
      in case cached of
           Some v \<Rightarrow> (JSON ''HIT'' v, h\<lparr>cache := c1\<rparr>)
         | None \<Rightarrow>
             (let (res, mgr) = Manager_GetPlaylist (radio h) (seed env) (repo h) (faults env)
                                 m instrumentalOnly;
                  h1 = h\<lparr>cache := c1, radio := mgr\<rparr>
              in case res of
                   Inl err \<Rightarrow> (Error 500 ''Internal error'', h1)
                 | Inr ts \<Rightarrow>
                     (let slim = toPlaylistTracks (resolveAudioURLs (audioResolver h) ts)
                      in if length slim > 0
                         then (JSON ''MISS'' (PlaylistTracks slim),
                               h1\<lparr>cache := Cache_Set c1 (clock env) cacheKey (PlaylistTracks slim)\<rparr>)
                         else (JSON ''MISS'' (PlaylistTracks slim), h1))))"

text \<open>
  \<open>handleMoods\<close> takes the URL path and the value of the query parameter
  \<open>instrumental\<close> (empty when absent).
\<close>

definition handleMoods :: "'m Handler \<Rightarrow> Env \<Rightarrow> string \<Rightarrow> string \<Rightarrow> 'm response \<times> 'm Handler" where
  "handleMoods h env urlPath instrumental =
     (let parts = Split (TrimPrefix urlPath ''/api/moods/'') CHR ''/''
      in if length parts < 2 then (Error 404 ''Not found'', h)
         else if parts ! 1 \<noteq> ''playlist'' then (Error 404 ''Not found'', h)
         else
           let m = parts ! 0
           in if \<not> validMoods m then (Error 404 ''Unknown mood'', h)
              else getPlaylist h env m (instrumental = ''true''))"

text \<open>
  The body of a play report, as \<open>recordPlay\<close> sees it: no body at all, a body that cannot
  be read, an empty body, bytes on which \<open>json.Unmarshal\<close> reports a syntax error (it
  leaves \<open>evt\<close> at its zero value), or bytes that it decodes into the given struct.
\<close>

datatype body = BodyNil | BodyReadError | BodyEmpty | BodyMalformed | BodyDecoded ListenEvent

definition zeroListenEvent :: ListenEvent where
  "zeroListenEvent =
     \<lparr>EvtTrackID = 0, EvtMood = [], EvtEventType = [], EvtListenSeconds = 0,
      EvtPlaylistPosition = None\<rparr>"

definition decodeBody :: "body \<Rightarrow> ListenEvent" where
  "decodeBody b = (case b of BodyDecoded e \<Rightarrow> e | _ \<Rightarrow> zeroListenEvent)"

definition validEventTypes :: "string \<Rightarrow> bool" where
  "validEventTypes e = (e \<in> set [EventPlay, EventSkip, EventComplete])"

text \<open>"Fill defaults": the track ID of the URL, and \<open>play\<close> for a missing event type.\<close>

definition fillDefaults :: "ListenEvent \<Rightarrow> int \<Rightarrow> ListenEvent" where
  "fillDefaults evt trackID =
     (let evt1 = evt\<lparr>EvtTrackID := trackID\<rparr>
      in if EvtEventType evt1 = [] then evt1\<lparr>EvtEventType := EventPlay\<rparr> else evt1)"

text \<open>The lookup of the track: an error of \<open>GetByID\<close> is logged and leaves \<open>track\<close> nil.\<close>

definition lookupTrack :: "DB \<Rightarrow> Faults \<Rightarrow> int \<Rightarrow> Track option" where
  "lookupTrack db fl trackID = (case GetByID db fl trackID of Inl err \<Rightarrow> None | Inr t \<Rightarrow> t)"

definition fillMood :: "ListenEvent \<Rightarrow> Track option \<Rightarrow> ListenEvent" where
  "fillMood evt track =
     (case track of
        None \<Rightarrow> evt
      | Some t \<Rightarrow> if EvtMood evt = [] then evt\<lparr>EvtMood := Mood t\<rparr> else evt)"

text \<open>The updates of the in-memory state after a successful commit.\<close>

definition afterCommit :: "'m Handler \<Rightarrow> Env \<Rightarrow> ListenEvent \<Rightarrow> Track option \<Rightarrow> int \<Rightarrow> 'm Handler" where
  "afterCommit h env evt track trackID =
     (if EvtEventType evt \<noteq> EventSkip
      then
        let h1 = h\<lparr>playsTotal := playsTotal h + 1\<rparr>
        in case track of
             None \<Rightarrow> h1
           | Some t \<Rightarrow> h1\<lparr>radio := Manager_RecordPlay (radio h1) (seed env) (Mood t) trackID\<rparr>
      else h)"

text \<open>
  The transaction of \<open>recordPlay\<close>, from \<open>BeginTx\<close> to \<open>Commit\<close>. Each of the four
  error branches of the source returns under the deferred \<open>tx.Rollback()\<close>, so the
  committed database stays as it was and the error is all that comes back.
\<close>

definition durableWrites :: "DB \<Rightarrow> Faults \<Rightarrow> time \<Rightarrow> ListenEvent \<Rightarrow> int \<Rightarrow> error + DB" where
  "durableWrites db fl now evt trackID =
     (case BeginTx db fl of
        Inl err \<Rightarrow> Inl err
      | Inr tx0 \<Rightarrow>
          (case (if EvtEventType evt \<noteq> EventSkip
                 then UpdatePlayStatsTx tx0 fl now trackID
                 else Inr tx0) of
             Inl err \<Rightarrow> Inl err
           | Inr tx1 \<Rightarrow>
               (case (if EvtMood evt \<noteq> []
                      then RecordListenEventTx tx1 fl now evt
                      else Inr tx1) of
                  Inl err \<Rightarrow> Inl err
                | Inr tx2 \<Rightarrow> Commit tx2 fl)))"

definition recordPlay :: "'m Handler \<Rightarrow> Env \<Rightarrow> body \<Rightarrow> int \<Rightarrow> 'm response \<times> 'm Handler" where
  "recordPlay h env b trackID =
     (let evt0 = fillDefaults (decodeBody b) trackID
      in if \<not> validEventTypes (EvtEventType evt0) then (Error 400 ''invalid event type'', h)
         else
           let track = lookupTrack (repo h) (faults env) trackID;
               evt = fillMood evt0 track
           in case durableWrites (repo h) (faults env) (clock env) evt trackID of
                Inl err \<Rightarrow> (Error 500 ''failed to record play'', h)
              | Inr db' \<Rightarrow> (OK, afterCommit (h\<lparr>repo := db'\<rparr>) env evt track trackID))"

text \<open>
  The event a play report stands for once the defaults and the mood are filled in: what
  \<open>recordPlay\<close> hands to \<open>RecordListenEventTx\<close>.
\<close>

definition reportedEvent :: "'m Handler \<Rightarrow> Env \<Rightarrow> body \<Rightarrow> int \<Rightarrow> ListenEvent" where
  "reportedEvent h env b trackID =
     fillMood (fillDefaults (decodeBody b) trackID) (lookupTrack (repo h) (faults env) trackID)"

text \<open>
  The first lines of \<open>recordPlay\<close>, from the request to the decoded body. The request
  has no body (\<open>r.Body == nil\<close>), a body that \<open>io.ReadAll\<close> fails to read, or bytes, of
  which \<open>io.LimitReader(r.Body, 1024)\<close> lets the first 1024 through. \<open>json.Unmarshal\<close>
  belongs to \<open>encoding/json\<close>, not to the repository, and is a parameter: for the bytes
  read it gives \<open>None\<close> when it reports a syntax error and leaves \<open>evt\<close> untouched, and
  otherwise the struct it leaves in \<open>evt\<close> (the handler ignores the error it may return).
\<close>

datatype request_body = NoBody | Unreadable | Bytes string

type_synonym decoder = "string \<Rightarrow> ListenEvent option"

definition readBody :: "decoder \<Rightarrow> request_body \<Rightarrow> body" where
  "readBody unmarshal rb =
     (case rb of
        NoBody \<Rightarrow> BodyNil
      | Unreadable \<Rightarrow> BodyReadError
      | Bytes bs \<Rightarrow>
          (let limited = take 1024 bs
           in if length limited > 0
              then (case unmarshal limited of
                      None \<Rightarrow> BodyMalformed
                    | Some e \<Rightarrow> BodyDecoded e)
              else BodyEmpty))"

definition recordPlayRequest ::
  "'m Handler \<Rightarrow> Env \<Rightarrow> decoder \<Rightarrow> request_body \<Rightarrow> int \<Rightarrow> 'm response \<times> 'm Handler" where
  "recordPlayRequest h env unmarshal rb trackID =
     recordPlay h env (readBody unmarshal rb) trackID"

subsection \<open>A small catalogue\<close>

text \<open>
  The catalogue of the repository's radio tests: three approved \<open>focus\<close> tracks and one
  \<open>calm\<close> track, with play counts 10, 0, 5 and 2.
\<close>

definition catalogueRow :: "int \<Rightarrow> string \<Rightarrow> string \<Rightarrow> tracks_row" where
  "catalogueRow i path m =
     \<lparr>t_id = i, t_file_path = path, t_title = None, t_artist = Some ''Drift FM'', t_mood = m,
      t_energy = ''low'', t_tempo_bpm = None, t_has_vocals = 0, t_musical_key = None,
      t_intensity = Some 5, t_time_affinity = Some ''any'', t_lyrics = None,
      t_duration_seconds = 180, t_status = ''approved'', t_created_at = 0\<rparr>"

definition playedTimes :: "int \<Rightarrow> play_stats_row" where
  "playedTimes n = \<lparr>ps_play_count = n, ps_last_played_at = None, ps_created_at = 0\<rparr>"

definition catalogue :: DB where
  "catalogue =
     \<lparr>tracks_tbl = [catalogueRow 1 ''focus/track1.mp3'' ''focus'',
                    catalogueRow 2 ''focus/track2.mp3'' ''focus'',
                    catalogueRow 3 ''focus/track3.mp3'' ''focus'',
                    catalogueRow 4 ''calm/track1.mp3'' ''calm''],
      play_stats_tbl = [''focus/track1.mp3'' \<mapsto> playedTimes 10,
                        ''focus/track3.mp3'' \<mapsto> playedTimes 5,
                        ''calm/track1.mp3'' \<mapsto> playedTimes 2],
      listen_events_tbl = [],
      listen_events_seq = 0\<rparr>"

definition noFaults :: Faults where
  "noFaults =
     \<lparr>GetByMood_fails = False, GetByID_fails = False, BeginTx_fails = False,
      UpdatePlayStatsTx_fails = False, RecordListenEventTx_fails = False,
      Commit_fails = False\<rparr>"

definition countingRng :: rng where
  "countingRng = \<lparr>draws = (\<lambda>k. k), pos = 0\<rparr>"

definition focusTracks :: "Track list" where
  "focusTracks =
     map (scanTrackRow catalogue)
       [catalogueRow 2 ''focus/track2.mp3'' ''focus'',
        catalogueRow 3 ''focus/track3.mp3'' ''focus'',
        catalogueRow 1 ''focus/track1.mp3'' ''focus'']"

definition focusRadio :: Radio where
  "focusRadio = \<lparr>mood = ''focus'', recentlyPlayed = [3], maxRecent = 3, rng = countingRng\<rparr>"

definition quietEnv :: Env where
  "quietEnv = \<lparr>clock = 1000000000, faults = noFaults, seed = countingRng\<rparr>"

definition warmCache :: "nat Cache" where
  "warmCache =
     Cache_Set (Cache_Set (Cache_Set (Cache_Set New 0 KeyMoodsList 1) 0 ''playlist:focus'' 2)
       0 ''playlist:calm:instrumental'' 3) 0 ''stats'' 7"

definition insertFails :: Env where
  "insertFails = quietEnv\<lparr>faults := noFaults\<lparr>RecordListenEventTx_fails := True\<rparr>\<rparr>"

definition negativeReport :: body where
  "negativeReport =
     BodyDecoded \<lparr>EvtTrackID = 0, EvtMood = ''focus'', EvtEventType = ''play'',
                   EvtListenSeconds = - 5, EvtPlaylistPosition = Some 0\<rparr>"

text \<open>
  Four request bodies and what \<open>json.Unmarshal\<close> decodes them to: a skip report with a
  mood, a skip report without one, a report with a negative \<open>listen_seconds\<close>, and a
  skip report of 1140 bytes. \<open>clientDocuments\<close> is a decoder that agrees with
  \<open>json.Unmarshal\<close> on these four documents and on the first 1024 bytes of the long
  one, which end inside a string literal and are a syntax error; no other byte string is
  given to it below.
\<close>

definition skipDocument :: string where
  \<open>skipDocument = ''{"event":"skip","listen_seconds":45,"mood":"focus","position":2}''\<close>

definition moodlessSkipDocument :: string where
  \<open>moodlessSkipDocument = ''{"event":"skip","listen_seconds":30}''\<close>

definition negativeDocument :: string where
  \<open>negativeDocument = ''{"event":"play","listen_seconds":-5,"mood":"focus","position":0}''\<close>

definition longSkipDocument :: string where
  \<open>longSkipDocument = ''{"event":"skip","pad":"'' @ replicate 1115 CHR ''x'' @ ''"}''\<close>

definition clientDocuments :: decoder where
  "clientDocuments =
     map_of
       [(skipDocument,
           \<lparr>EvtTrackID = 0, EvtMood = ''focus'', EvtEventType = ''skip'',
            EvtListenSeconds = 45, EvtPlaylistPosition = Some 2\<rparr>),
        (moodlessSkipDocument,
           \<lparr>EvtTrackID = 0, EvtMood = [], EvtEventType = ''skip'',
            EvtListenSeconds = 30, EvtPlaylistPosition = None\<rparr>),
        (negativeDocument,
           \<lparr>EvtTrackID = 0, EvtMood = ''focus'', EvtEventType = ''play'',
            EvtListenSeconds = - 5, EvtPlaylistPosition = Some 0\<rparr>),
        (longSkipDocument,
           \<lparr>EvtTrackID = 0, EvtMood = [], EvtEventType = ''skip'',
            EvtListenSeconds = 0, EvtPlaylistPosition = None\<rparr>)]"

definition mockResolver :: "string \<Rightarrow> string \<times> error option" where
  "mockResolver filePath = (''/audio/'' @ filePath, None)"

definition freshHandler :: "'m Handler" where
  "freshHandler =
     \<lparr>repo = catalogue, radio = NewManager, audioResolver = mockResolver, cache = New,
      playsTotal = 0\<rparr>"

section \<open>Properties\<close>

lemma partitionRecent_filter:
  "partitionRecent s ts a b =
     (a @ filter (\<lambda>t. ID t \<notin> s) ts, b @ filter (\<lambda>t. ID t \<in> s) ts)"
  by (induction ts arbitrary: a b) auto

lemma Intn_less: "0 < n \<Longrightarrow> fst (Intn g n) < n"
  by (simp add: Intn_def)

lemma fisherYates_mset:
  "i < length xs \<Longrightarrow> mset (fst (fisherYates i xs g)) = mset xs"
proof (induction i arbitrary: xs g)
  case 0
  then show ?case by simp
next
  case (Suc k)
  obtain j g' where J: "Intn g (Suc k + 1) = (j, g')"
    by (cases "Intn g (Suc k + 1)")
  have "j < Suc k + 1"
    using Intn_less [of "Suc k + 1" g] J by simp
  with Suc.prems have jlt: "j < length xs" by simp
  let ?ys = "xs[Suc k := xs ! j, j := xs ! Suc k]"
  have "mset ?ys = mset xs"
    using Suc.prems jlt by (simp add: mset_swap)
  moreover have "k < length ?ys"
    using Suc.prems by simp
  ultimately show ?case
    using Suc.IH [of ?ys g'] J by simp
qed

lemma fisherYates_mset_any: "mset (fst (fisherYates (length xs - 1) xs g)) = mset xs"
proof (cases xs)
  case Nil
  then show ?thesis by simp
next
  case (Cons x xs')
  then show ?thesis by (simp add: fisherYates_mset)
qed

subsection \<open>The shuffle\<close>

lemma shuffle_fst:
  "fst (shuffleWithRecencyLocked r tracks) =
     fst (fisherYates (length (filter (\<lambda>t. ID t \<notin> set (recentlyPlayed r)) tracks) - 1)
            (filter (\<lambda>t. ID t \<notin> set (recentlyPlayed r)) tracks) (rng r))
     @ filter (\<lambda>t. ID t \<in> set (recentlyPlayed r)) tracks"
  by (simp add: shuffleWithRecencyLocked_def partitionRecent_filter Let_def split: prod.splits)

lemma shuffle_snd_recentlyPlayed:
  "recentlyPlayed (snd (shuffleWithRecencyLocked r tracks)) = recentlyPlayed r"
  by (simp add: shuffleWithRecencyLocked_def partitionRecent_filter Let_def split: prod.splits)

lemma mset_partition_recent:
  "mset (filter (\<lambda>t. ID t \<notin> s) ts) + mset (filter (\<lambda>t. ID t \<in> s) ts) = mset ts"
  by (induction ts) simp_all

lemma shuffle_mset: "mset (fst (shuffleWithRecencyLocked r tracks)) = mset tracks"
proof -
  let ?nr = "filter (\<lambda>t. ID t \<notin> set (recentlyPlayed r)) tracks"
  let ?rc = "filter (\<lambda>t. ID t \<in> set (recentlyPlayed r)) tracks"
  have "mset (fst (shuffleWithRecencyLocked r tracks))
          = mset (fst (fisherYates (length ?nr - 1) ?nr (rng r))) + mset ?rc"
    unfolding shuffle_fst by (rule mset_append)
  also have "\<dots> = mset ?nr + mset ?rc"
    unfolding fisherYates_mset_any ..
  also have "\<dots> = mset tracks"
    by (rule mset_partition_recent)
  finally show ?thesis .
qed

lemma GetPlaylist_fst:
  assumes "GetByMood db fl (mood r) instr = Inr tracks"
  shows "fst (GetPlaylist r db fl instr) = Inr (fst (shuffleWithRecencyLocked r tracks))"
proof (cases "length tracks = 0")
  case True
  then have "tracks = []" by simp
  moreover have "fst (shuffleWithRecencyLocked r []) = []"
    by (simp add: shuffle_fst)
  ultimately show ?thesis using assms by (simp add: GetPlaylist_def)
next
  case False
  then show ?thesis using assms
    by (simp add: GetPlaylist_def split: prod.splits)
qed

lemma focus_query: "GetByMood catalogue noFaults (mood focusRadio) False = Inr focusTracks"
  by (simp add: GetByMood_def catalogue_def noFaults_def focusRadio_def focusTracks_def
      eligible_def catalogueRow_def StatusApproved_def scanTrackRow_def playedTimes_def)

lemma focus_shuffle_ids:
  "map ID (fst (shuffleWithRecencyLocked focusRadio focusTracks)) = [1, 2, 3]"
  by (simp add: shuffle_fst focusRadio_def focusTracks_def scanTrackRow_def catalogueRow_def
                Intn_def countingRng_def)

lemma focus_playlist_ids:
  "\<exists>out. fst (GetPlaylist focusRadio catalogue noFaults False) = Inr out \<and> map ID out = [1, 2, 3]"
  using GetPlaylist_fst [OF focus_query] focus_shuffle_ids by simp

text \<open>
  C1. Whatever list of eligible tracks the store returns, \<open>GetPlaylist\<close> returns a
  permutation of it: the same tracks and so the same track IDs, each as often as in the
  input, none left out and none added; IDs that are distinct in the input are distinct in
  the output. (For the empty list this holds as well: it is returned as it is.)
\<close>

theorem GetPlaylist_permutation:
  assumes "GetByMood db fl (mood r) instrumentalOnly = Inr tracks"
  shows "\<exists>shuffled. fst (GetPlaylist r db fl instrumentalOnly) = Inr shuffled \<and>
           mset shuffled = mset tracks \<and>
           mset (map ID shuffled) = mset (map ID tracks) \<and>
           length shuffled = length tracks \<and>
           (distinct (map ID tracks) \<longrightarrow> distinct (map ID shuffled))"
proof -
  let ?out = "fst (shuffleWithRecencyLocked r tracks)"
  have m: "mset ?out = mset tracks" by (rule shuffle_mset)
  have mi: "mset (map ID ?out) = mset (map ID tracks)"
    using m by (metis mset_map)
  have len: "length ?out = length tracks" using m by (rule mset_eq_length)
  have d: "distinct (map ID tracks) \<longrightarrow> distinct (map ID ?out)"
    using mi mset_eq_imp_distinct_iff by blast
  have "fst (GetPlaylist r db fl instrumentalOnly) = Inr ?out"
    by (rule GetPlaylist_fst [OF assms])
  with m mi len d show ?thesis by blast
qed

theorem GetPlaylist_permutation_witness:
  "GetByMood catalogue noFaults (mood focusRadio) False = Inr focusTracks \<and>
   focusTracks \<noteq> [] \<and> distinct (map ID focusTracks) \<and>
   (\<exists>shuffled. fst (GetPlaylist focusRadio catalogue noFaults False) = Inr shuffled \<and>
      mset shuffled = mset focusTracks \<and>
      mset (map ID shuffled) = mset (map ID focusTracks) \<and>
      length shuffled = length focusTracks \<and>
      distinct (map ID shuffled))"
proof -
  have d: "distinct (map ID focusTracks)" "focusTracks \<noteq> []"
    by (simp_all add: focusTracks_def scanTrackRow_def catalogueRow_def)
  from GetPlaylist_permutation [OF focus_query] d focus_query show ?thesis
    by auto
qed

text \<open>
  C2. In the playlist that \<open>GetPlaylist\<close> returns, every track whose ID is in the
  recency window comes strictly after every track whose ID is not, and the tracks of the
  window stand in the order in which the store returned them.
\<close>

theorem GetPlaylist_recency_tail:
  assumes "GetByMood db fl (mood r) instrumentalOnly = Inr tracks"
  shows "\<exists>out. fst (GetPlaylist r db fl instrumentalOnly) = Inr out \<and>
           (\<forall>i j. i < length out \<and> j < length out \<and>
                  ID (out ! i) \<notin> set (recentlyPlayed r) \<and>
                  ID (out ! j) \<in> set (recentlyPlayed r) \<longrightarrow> i < j) \<and>
           filter (\<lambda>t. ID t \<in> set (recentlyPlayed r)) out =
             filter (\<lambda>t. ID t \<in> set (recentlyPlayed r)) tracks"
proof -
  define W where "W = set (recentlyPlayed r)"
  define nr where "nr = filter (\<lambda>t. ID t \<notin> W) tracks"
  define rc where "rc = filter (\<lambda>t. ID t \<in> W) tracks"
  define pre where "pre = fst (fisherYates (length nr - 1) nr (rng r))"
  define out where "out = fst (shuffleWithRecencyLocked r tracks)"
  have out: "out = pre @ rc"
    unfolding out_def pre_def nr_def rc_def W_def by (rule shuffle_fst)
  have "mset pre = mset nr"
    unfolding pre_def by (rule fisherYates_mset_any)
  then have "set pre = set nr" by (rule mset_eq_setD)
  then have pre: "\<And>t. t \<in> set pre \<Longrightarrow> ID t \<notin> W" by (simp add: nr_def)
  have rc: "\<And>t. t \<in> set rc \<Longrightarrow> ID t \<in> W" by (simp add: rc_def)
  have order: "i < j"
    if "i < length out" "j < length out" "ID (out ! i) \<notin> W" "ID (out ! j) \<in> W" for i j
  proof -
    have i: "i < length pre"
    proof (rule ccontr)
      assume n: "\<not> i < length pre"
      then have "out ! i = rc ! (i - length pre)"
        by (simp add: out nth_append)
      moreover have "i - length pre < length rc"
        using that(1) n by (simp add: out)
      ultimately have "out ! i \<in> set rc" by simp
      then show False using rc that(3) by blast
    qed
    have j: "\<not> j < length pre"
    proof
      assume "j < length pre"
      then have "out ! j \<in> set pre" by (simp add: out nth_append)
      then show False using pre that(4) by blast
    qed
    from i j show ?thesis by simp
  qed
  have "filter (\<lambda>t. ID t \<in> W) pre = []"
    using pre by (simp add: filter_empty_conv)
  moreover have "filter (\<lambda>t. ID t \<in> W) rc = rc"
    by (simp add: rc_def)
  ultimately have keep: "filter (\<lambda>t. ID t \<in> W) out = rc"
    by (simp add: out)
  have "fst (GetPlaylist r db fl instrumentalOnly) = Inr out"
    unfolding out_def by (rule GetPlaylist_fst [OF assms])
  moreover have "\<forall>i j. i < length out \<and> j < length out \<and> ID (out ! i) \<notin> W \<and> ID (out ! j) \<in> W
                   \<longrightarrow> i < j"
    using order by blast
  ultimately show ?thesis
    using keep unfolding W_def rc_def by blast
qed

theorem GetPlaylist_recency_tail_witness:
  "GetByMood catalogue noFaults (mood focusRadio) False = Inr focusTracks \<and>
   recentlyPlayed focusRadio = [3] \<and> map ID focusTracks = [2, 3, 1] \<and>
   (\<exists>out. fst (GetPlaylist focusRadio catalogue noFaults False) = Inr out \<and>
      map ID out = [1, 2, 3] \<and>
      (\<forall>i j. i < length out \<and> j < length out \<and>
             ID (out ! i) \<notin> set (recentlyPlayed focusRadio) \<and>
             ID (out ! j) \<in> set (recentlyPlayed focusRadio) \<longrightarrow> i < j) \<and>
      filter (\<lambda>t. ID t \<in> set (recentlyPlayed focusRadio)) out =
        filter (\<lambda>t. ID t \<in> set (recentlyPlayed focusRadio)) focusTracks)"
proof -
  have w: "recentlyPlayed focusRadio = [3]" by (simp add: focusRadio_def)
  have i: "map ID focusTracks = [2, 3, 1]"
    by (simp add: focusTracks_def scanTrackRow_def catalogueRow_def)
  obtain out :: "Track list" where o: "fst (GetPlaylist focusRadio catalogue noFaults False) = Inr out"
    and ids: "map ID out = [1, 2, 3]"
    using focus_playlist_ids by (elim exE conjE)
  from GetPlaylist_recency_tail [OF focus_query] o
  have t: "(\<forall>i j. i < length out \<and> j < length out \<and>
             ID (out ! i) \<notin> set (recentlyPlayed focusRadio) \<and>
             ID (out ! j) \<in> set (recentlyPlayed focusRadio) \<longrightarrow> i < j) \<and>
      filter (\<lambda>t. ID t \<in> set (recentlyPlayed focusRadio)) out =
        filter (\<lambda>t. ID t \<in> set (recentlyPlayed focusRadio)) focusTracks"
    by simp
  show ?thesis
    by (intro conjI exI [of _ out])
       (rule focus_query w i o ids t [THEN conjunct1] t [THEN conjunct2])+
qed

subsection \<open>The recency window\<close>

lemma maxRecent_RecordPlay: "maxRecent (RecordPlay r x) = maxRecent r"
  by (simp add: RecordPlay_def Let_def)

lemma maxRecent_foldl_RecordPlay: "maxRecent (foldl RecordPlay r xs) = maxRecent r"
  by (induction xs arbitrary: r) (simp_all add: maxRecent_RecordPlay)

lemma RecordPlay_present: "x \<in> set (recentlyPlayed r) \<Longrightarrow> RecordPlay r x = r"
  by (simp add: RecordPlay_def)

lemma RecordPlay_absent:
  "x \<notin> set (recentlyPlayed r) \<Longrightarrow>
   recentlyPlayed (RecordPlay r x) =
     (if int (length (recentlyPlayed r)) + 1 > maxRecent r
      then drop 1 (recentlyPlayed r @ [x]) else recentlyPlayed r @ [x])"
  by (simp add: RecordPlay_def Let_def)

lemma length_drop_1_snoc: "length (drop 1 (w @ [x])) = length w"
  by (cases w) simp_all

lemma RecordPlay_length:
  assumes "0 \<le> maxRecent r" "int (length (recentlyPlayed r)) \<le> maxRecent r"
  shows "int (length (recentlyPlayed (RecordPlay r x))) \<le> maxRecent r"
proof (cases "x \<in> set (recentlyPlayed r)")
  case True
  then show ?thesis using assms by (simp add: RecordPlay_present)
next
  case False
  show ?thesis
  proof (cases "int (length (recentlyPlayed r)) + 1 > maxRecent r")
    case True
    then have "recentlyPlayed (RecordPlay r x) = drop 1 (recentlyPlayed r @ [x])"
      using False by (simp add: RecordPlay_absent)
    then show ?thesis using assms(2) by (simp only: length_drop_1_snoc)
  next
    case n: False
    then have "recentlyPlayed (RecordPlay r x) = recentlyPlayed r @ [x]"
      using False by (simp add: RecordPlay_absent)
    then show ?thesis using n by simp
  qed
qed

lemma foldl_RecordPlay_length:
  assumes "0 \<le> maxRecent r" "int (length (recentlyPlayed r)) \<le> maxRecent r"
  shows "int (length (recentlyPlayed (foldl RecordPlay r xs))) \<le> maxRecent r"
  using assms
proof (induction xs arbitrary: r)
  case Nil
  then show ?case by simp
next
  case (Cons x xs)
  have "int (length (recentlyPlayed (foldl RecordPlay (RecordPlay r x) xs)))
          \<le> maxRecent (RecordPlay r x)"
    by (rule Cons.IH) (simp_all add: maxRecent_RecordPlay RecordPlay_length Cons.prems)
  then show ?case by (simp add: maxRecent_RecordPlay)
qed

lemma foldl_RecordPlay_window:
  assumes "0 \<le> maxRecent r" "int (length (recentlyPlayed r)) \<le> maxRecent r"
      and "distinct ids" "set ids \<inter> set (recentlyPlayed r) = {}"
  shows "recentlyPlayed (foldl RecordPlay r ids) =
           drop (length (recentlyPlayed r @ ids) - nat (maxRecent r)) (recentlyPlayed r @ ids)"
  using assms(3,4)
proof (induction ids rule: rev_induct)
  case Nil
  then show ?case using assms(1,2) by simp
next
  case (snoc x xs)
  define N where "N = nat (maxRecent r)"
  define cur where "cur = foldl RecordPlay r xs"
  define before where "before = recentlyPlayed r @ xs"
  have IH: "recentlyPlayed cur = drop (length before - N) before"
    unfolding cur_def before_def N_def using snoc by auto
  have "x \<notin> set before" using snoc.prems by (auto simp: before_def)
  then have fresh: "x \<notin> set (recentlyPlayed cur)"
    unfolding IH using in_set_dropD by fastforce
  have mr: "maxRecent cur = int N"
    unfolding cur_def N_def using assms(1) by (simp add: maxRecent_foldl_RecordPlay)
  have len: "length (recentlyPlayed cur) = min (length before) N"
    unfolding IH by simp
  have step: "recentlyPlayed (RecordPlay cur x) =
                drop (length (before @ [x]) - N) (before @ [x])"
  proof (cases "N \<le> length before")
    case True
    then have "int (length (recentlyPlayed cur)) + 1 > maxRecent cur"
      using len mr by simp
    then have "recentlyPlayed (RecordPlay cur x) = drop 1 (recentlyPlayed cur @ [x])"
      using fresh by (simp add: RecordPlay_absent)
    also have "recentlyPlayed cur @ [x] = drop (length before - N) (before @ [x])"
      by (simp add: IH)
    also have "drop 1 (drop (length before - N) (before @ [x]))
                 = drop (1 + (length before - N)) (before @ [x])"
      by (rule drop_drop)
    also have "1 + (length before - N) = length (before @ [x]) - N"
      using True by simp
    finally show ?thesis .
  next
    case False
    then have "\<not> int (length (recentlyPlayed cur)) + 1 > maxRecent cur"
      using len mr by simp
    then have "recentlyPlayed (RecordPlay cur x) = recentlyPlayed cur @ [x]"
      using fresh by (simp add: RecordPlay_absent)
    then show ?thesis using False by (simp add: IH)
  qed
  show ?case using step by (simp add: cur_def before_def N_def)
qed

text \<open>
  C5. For a Radio with window size \<open>N = maxRecent\<close> whose window holds at most \<open>N\<close>
  IDs (a new Radio's window is empty): after \<open>N + 1\<close> calls of \<open>RecordPlay\<close> with
  pairwise distinct IDs that are not yet in the window, the window is exactly the last
  \<open>N\<close> of these IDs in the order of the calls, the first of them evicted from the front;
  after any sequence of calls the window holds at most \<open>N\<close> IDs; and a call with an ID
  that is present changes nothing.
\<close>

theorem RecordPlay_recency_bound:
  assumes "0 \<le> maxRecent r" and "int (length (recentlyPlayed r)) \<le> maxRecent r"
      and "distinct ids" and "set ids \<inter> set (recentlyPlayed r) = {}"
      and "int (length ids) = maxRecent r + 1"
  shows "recentlyPlayed (foldl RecordPlay r ids) = drop 1 ids \<and>
         int (length (recentlyPlayed (foldl RecordPlay r ids))) = maxRecent r \<and>
         (\<forall>calls. int (length (recentlyPlayed (foldl RecordPlay r calls))) \<le> maxRecent r) \<and>
         (\<forall>r' x. x \<in> set (recentlyPlayed r') \<longrightarrow> RecordPlay r' x = r')"
proof -
  have "length (recentlyPlayed r @ ids) - nat (maxRecent r) = length (recentlyPlayed r) + 1"
    using assms(1,5) by simp
  then have w: "recentlyPlayed (foldl RecordPlay r ids) = drop 1 ids"
    using foldl_RecordPlay_window [OF assms(1-4)] by simp
  have "int (length (drop 1 ids)) = maxRecent r"
    using assms(1,5) by simp
  with w have l: "int (length (recentlyPlayed (foldl RecordPlay r ids))) = maxRecent r"
    by simp
  show ?thesis
    using w l foldl_RecordPlay_length [OF assms(1,2)] RecordPlay_present by blast
qed

theorem RecordPlay_recency_bound_witness:
  "recentlyPlayed (foldl RecordPlay (NewRadio ''focus'' countingRng) [1, 2, 3, 4]) = [2, 3, 4]"
proof -
  let ?r = "NewRadio ''focus'' countingRng"
  have "0 \<le> maxRecent ?r" "int (length (recentlyPlayed ?r)) \<le> maxRecent ?r"
       "distinct [1, 2, 3, 4 :: int]" "set [1, 2, 3, 4 :: int] \<inter> set (recentlyPlayed ?r) = {}"
       "int (length [1, 2, 3, 4 :: int]) = maxRecent ?r + 1"
    by (simp_all add: NewRadio_def DefaultMaxRecent_def)
  from RecordPlay_recency_bound [OF this] show ?thesis by simp
qed

subsection \<open>The response cache\<close>

lemma items_InvalidateMoods:
  "items (InvalidateMoods c) k =
     (if k = KeyMoodsList \<or> HasPrefix k ''playlist:'' then None else items c k)"
  by (simp add: InvalidateMoods_def Let_def)

lemma Cache_Get_absent: "items c k = None \<Longrightarrow> fst (Cache_Get c now k) = None"
  by (simp add: Cache_Get_def)

lemma Cache_Get_live:
  "items c k = Some e \<Longrightarrow> \<not> After now (expiresAt e) \<Longrightarrow> fst (Cache_Get c now k) = Some (val e)"
  by (simp add: Cache_Get_def)

lemma HasPrefix_playlistCacheKey: "HasPrefix (playlistCacheKey m instr) ''playlist:''"
  by (simp add: HasPrefix_def playlistCacheKey_def PlaylistKey_def)

lemma evictExpired_Get:
  "swept \<le> now \<Longrightarrow> fst (Cache_Get (evictExpired c swept) now k) = fst (Cache_Get c now k)"
  by (auto simp: Cache_Get_def evictExpired_def After_def split: option.splits)

text \<open>
  C6. After \<open>InvalidateMoods\<close>, at any time, \<open>Get\<close> misses for the mood-list key and for
  every key with the prefix \<open>playlist:\<close>, so for the playlist key of every mood, with
  or without the \<open>:instrumental\<close> suffix. For any other key, an entry that has not
  expired is still found with its value; in particular a value stored by \<open>Set\<close> at
  \<open>t0\<close> is found up to \<open>t0 + DefaultTTL\<close>.
\<close>

theorem InvalidateMoods_correct:
  "fst (Cache_Get (InvalidateMoods c) now KeyMoodsList) = None \<and>
   (\<forall>k. HasPrefix k ''playlist:'' \<longrightarrow> fst (Cache_Get (InvalidateMoods c) now k) = None) \<and>
   (\<forall>m instrumentalOnly.
      fst (Cache_Get (InvalidateMoods c) now (playlistCacheKey m instrumentalOnly)) = None) \<and>
   (\<forall>k e. k \<noteq> KeyMoodsList \<and> \<not> HasPrefix k ''playlist:'' \<and>
          items c k = Some e \<and> \<not> After now (expiresAt e) \<longrightarrow>
          fst (Cache_Get (InvalidateMoods c) now k) = Some (val e)) \<and>
   (\<forall>k v t0. k \<noteq> KeyMoodsList \<and> \<not> HasPrefix k ''playlist:'' \<and> now \<le> t0 + DefaultTTL \<longrightarrow>
          fst (Cache_Get (InvalidateMoods (Cache_Set c t0 k v)) now k) = Some v)"
proof (intro conjI allI impI)
  show "fst (Cache_Get (InvalidateMoods c) now KeyMoodsList) = None"
    by (rule Cache_Get_absent) (simp add: items_InvalidateMoods)
next
  fix k assume "HasPrefix k ''playlist:''"
  then show "fst (Cache_Get (InvalidateMoods c) now k) = None"
    by (intro Cache_Get_absent) (simp add: items_InvalidateMoods)
next
  fix m instrumentalOnly
  show "fst (Cache_Get (InvalidateMoods c) now (playlistCacheKey m instrumentalOnly)) = None"
    by (rule Cache_Get_absent) (simp add: items_InvalidateMoods HasPrefix_playlistCacheKey)
next
  fix k e
  assume a: "k \<noteq> KeyMoodsList \<and> \<not> HasPrefix k ''playlist:'' \<and>
             items c k = Some e \<and> \<not> After now (expiresAt e)"
  then have "items (InvalidateMoods c) k = Some e"
    by (simp add: items_InvalidateMoods)
  then show "fst (Cache_Get (InvalidateMoods c) now k) = Some (val e)"
    using a by (simp add: Cache_Get_live)
next
  fix k :: string and v :: 'a and t0 :: int
  assume a: "k \<noteq> KeyMoodsList \<and> \<not> HasPrefix k ''playlist:'' \<and> now \<le> t0 + DefaultTTL"
  let ?e = "\<lparr>val = v, expiresAt = t0 + DefaultTTL\<rparr>"
  have "items (InvalidateMoods (Cache_Set c t0 k v)) k = Some ?e"
    using a by (simp add: items_InvalidateMoods Cache_Set_def)
  moreover have "\<not> After now (expiresAt ?e)"
    using a by (simp add: After_def)
  ultimately have "fst (Cache_Get (InvalidateMoods (Cache_Set c t0 k v)) now k) = Some (val ?e)"
    by (rule Cache_Get_live)
  then show "fst (Cache_Get (InvalidateMoods (Cache_Set c t0 k v)) now k) = Some v"
    by simp
qed

theorem InvalidateMoods_correct_witness:
  "fst (Cache_Get (InvalidateMoods warmCache) 60000000000 KeyMoodsList) = None \<and>
   fst (Cache_Get (InvalidateMoods warmCache) 60000000000 ''playlist:focus'') = None \<and>
   fst (Cache_Get (InvalidateMoods warmCache) 60000000000 ''playlist:calm:instrumental'') = None \<and>
   fst (Cache_Get (InvalidateMoods warmCache) 60000000000 ''stats'') = Some 7"
proof -
  have p1: "HasPrefix ''playlist:focus'' ''playlist:''"
    by (simp add: HasPrefix_def)
  have p2: "playlistCacheKey ''calm'' True = ''playlist:calm:instrumental''"
    by (simp add: playlistCacheKey_def PlaylistKey_def)
  have w: "warmCache = Cache_Set (Cache_Set (Cache_Set (Cache_Set New 0 KeyMoodsList 1) 0
             ''playlist:focus'' 2) 0 ''playlist:calm:instrumental'' 3) 0 ''stats'' 7"
    by (simp add: warmCache_def)
  have p3: "''stats'' \<noteq> KeyMoodsList \<and> \<not> HasPrefix ''stats'' ''playlist:'' \<and>
            (60000000000::int) \<le> 0 + DefaultTTL"
    by (simp add: KeyMoodsList_def HasPrefix_def DefaultTTL_def)
  note T = InvalidateMoods_correct [of warmCache 60000000000]
  note T' = InvalidateMoods_correct [of "Cache_Set (Cache_Set (Cache_Set New 0 KeyMoodsList 1) 0
             ''playlist:focus'' 2) 0 ''playlist:calm:instrumental'' (3::nat)" 60000000000]
  have c1: "fst (Cache_Get (InvalidateMoods warmCache) 60000000000 KeyMoodsList) = None"
    by (rule T [THEN conjunct1])
  have c2: "fst (Cache_Get (InvalidateMoods warmCache) 60000000000 ''playlist:focus'') = None"
    by (rule T [THEN conjunct2, THEN conjunct1, rule_format, OF p1])
  have c3: "fst (Cache_Get (InvalidateMoods warmCache) 60000000000
                   (playlistCacheKey ''calm'' True)) = None"
    by (rule T [THEN conjunct2, THEN conjunct2, THEN conjunct1, rule_format])
  have c4: "fst (Cache_Get (InvalidateMoods warmCache) 60000000000 ''stats'') = Some 7"
    unfolding w
    by (rule T' [THEN conjunct2, THEN conjunct2, THEN conjunct2, THEN conjunct2,
                 rule_format, OF p3])
  show ?thesis using c1 c2 c3 c4 by (simp only: p2 simp_thms)
qed

subsection \<open>Play reports\<close>

lemma fillMood_fields:
  "EvtEventType (fillMood e t) = EvtEventType e"
  "EvtListenSeconds (fillMood e t) = EvtListenSeconds e"
  "EvtTrackID (fillMood e t) = EvtTrackID e"
  "EvtPlaylistPosition (fillMood e t) = EvtPlaylistPosition e"
  by (simp_all add: fillMood_def split: option.splits)

lemma fillDefaults_fields:
  "EvtListenSeconds (fillDefaults e i) = EvtListenSeconds e"
  "EvtTrackID (fillDefaults e i) = i"
  "EvtMood (fillDefaults e i) = EvtMood e"
  "EvtPlaylistPosition (fillDefaults e i) = EvtPlaylistPosition e"
  "EvtEventType (fillDefaults e i) = (if EvtEventType e = [] then EventPlay else EvtEventType e)"
  by (simp_all add: fillDefaults_def Let_def)

lemma reportedEvent_fields:
  "EvtEventType (reportedEvent h env b i) =
     (if EvtEventType (decodeBody b) = [] then EventPlay else EvtEventType (decodeBody b))"
  "EvtListenSeconds (reportedEvent h env b i) = EvtListenSeconds (decodeBody b)"
  "EvtTrackID (reportedEvent h env b i) = i"
  "EvtPlaylistPosition (reportedEvent h env b i) = EvtPlaylistPosition (decodeBody b)"
  by (simp_all add: reportedEvent_def fillMood_fields fillDefaults_fields)

lemma recordPlay_unfold:
  "recordPlay h env b i =
     (if \<not> validEventTypes (EvtEventType (reportedEvent h env b i))
      then (Error 400 ''invalid event type'', h)
      else case durableWrites (repo h) (faults env) (clock env) (reportedEvent h env b i) i of
             Inl err \<Rightarrow> (Error 500 ''failed to record play'', h)
           | Inr db' \<Rightarrow> (OK, afterCommit (h\<lparr>repo := db'\<rparr>) env (reportedEvent h env b i)
                                (lookupTrack (repo h) (faults env) i) i))"
  unfolding recordPlay_def reportedEvent_def Let_def
  by (simp add: fillMood_fields)

lemma foldl_upsert_frame:
  "tracks_tbl (foldl (upsertPlayStats now) tx rows) = tracks_tbl tx \<and>
   listen_events_tbl (foldl (upsertPlayStats now) tx rows) = listen_events_tbl tx \<and>
   listen_events_seq (foldl (upsertPlayStats now) tx rows) = listen_events_seq tx"
  by (induction rows arbitrary: tx) (simp_all add: upsertPlayStats_def)

lemma UpdatePlayStatsTx_frame:
  "UpdatePlayStatsTx tx fl now i = Inr tx' \<Longrightarrow>
   tracks_tbl tx' = tracks_tbl tx \<and> listen_events_tbl tx' = listen_events_tbl tx \<and>
   listen_events_seq tx' = listen_events_seq tx"
  by (auto simp: UpdatePlayStatsTx_def foldl_upsert_frame simp del: foldl_Cons
           split: if_splits list.splits)

lemma durableWrites_faulty:
  assumes "BeginTx_fails fl \<or>
           (UpdatePlayStatsTx_fails fl \<and> EvtEventType evt \<noteq> EventSkip) \<or>
           (RecordListenEventTx_fails fl \<and> EvtMood evt \<noteq> []) \<or>
           Commit_fails fl"
  shows "\<exists>err. durableWrites db fl now evt i = Inl err"
  using assms
  by (auto simp: durableWrites_def BeginTx_def UpdatePlayStatsTx_def RecordListenEventTx_def
                 Commit_def split: sum.splits list.splits)

lemma durableWrites_ok:
  assumes "durableWrites db fl now evt i = Inr db'"
  shows "\<exists>tx1. (if EvtEventType evt \<noteq> EventSkip
                then UpdatePlayStatsTx db fl now i = Inr tx1 else tx1 = db) \<and>
               (if EvtMood evt \<noteq> []
                then RecordListenEventTx tx1 fl now evt = Inr db' else db' = tx1)"
  using assms
  by (auto simp: durableWrites_def BeginTx_def Commit_def split: sum.splits if_splits)

text \<open>
  C3. A play report is all or nothing. Whenever \<open>recordPlay\<close> answers anything but
  200, the whole state is as before: no play count, no listen event, no recency window
  and no counter has changed. When the event type is valid and \<open>BeginTx\<close>, a requested
  \<open>UpdatePlayStatsTx\<close>, a requested \<open>RecordListenEventTx\<close> (also after
  \<open>UpdatePlayStatsTx\<close> succeeded) or \<open>Commit\<close> fails, the answer is 500 and the state
  is unchanged. When the answer is 200, the committed database is the result of all the
  requested writes, in order.
\<close>

theorem recordPlay_atomic:
  "(fst (recordPlay h env b trackID) \<noteq> OK \<longrightarrow> snd (recordPlay h env b trackID) = h) \<and>
   (validEventTypes (EvtEventType (reportedEvent h env b trackID)) \<and>
    (BeginTx_fails (faults env) \<or>
     (UpdatePlayStatsTx_fails (faults env) \<and>
        EvtEventType (reportedEvent h env b trackID) \<noteq> EventSkip) \<or>
     (RecordListenEventTx_fails (faults env) \<and> EvtMood (reportedEvent h env b trackID) \<noteq> []) \<or>
     Commit_fails (faults env)) \<longrightarrow>
    recordPlay h env b trackID = (Error 500 ''failed to record play'', h)) \<and>
   (fst (recordPlay h env b trackID) = OK \<longrightarrow>
    (\<exists>tx1. (if EvtEventType (reportedEvent h env b trackID) \<noteq> EventSkip
            then UpdatePlayStatsTx (repo h) (faults env) (clock env) trackID = Inr tx1
            else tx1 = repo h) \<and>
           (if EvtMood (reportedEvent h env b trackID) \<noteq> []
            then RecordListenEventTx tx1 (faults env) (clock env)
                   (reportedEvent h env b trackID) = Inr (repo (snd (recordPlay h env b trackID)))
            else repo (snd (recordPlay h env b trackID)) = tx1)))"
proof (intro conjI impI)
  assume "fst (recordPlay h env b trackID) \<noteq> OK"
  then show "snd (recordPlay h env b trackID) = h"
    by (simp add: recordPlay_unfold split: if_splits sum.splits)
next
  assume a: "validEventTypes (EvtEventType (reportedEvent h env b trackID)) \<and>
    (BeginTx_fails (faults env) \<or>
     (UpdatePlayStatsTx_fails (faults env) \<and>
        EvtEventType (reportedEvent h env b trackID) \<noteq> EventSkip) \<or>
     (RecordListenEventTx_fails (faults env) \<and> EvtMood (reportedEvent h env b trackID) \<noteq> []) \<or>
     Commit_fails (faults env))"
  then obtain err where
    "durableWrites (repo h) (faults env) (clock env) (reportedEvent h env b trackID) trackID
       = Inl err"
    using durableWrites_faulty by blast
  then show "recordPlay h env b trackID = (Error 500 ''failed to record play'', h)"
    using a by (simp add: recordPlay_unfold)
next
  assume ok: "fst (recordPlay h env b trackID) = OK"
  then obtain db' where
    w: "durableWrites (repo h) (faults env) (clock env) (reportedEvent h env b trackID) trackID
          = Inr db'"
    by (auto simp: recordPlay_unfold split: if_splits sum.splits)
  have "repo (afterCommit (h\<lparr>repo := db'\<rparr>) env evt track trackID) = db'" for evt track
    by (simp add: afterCommit_def Let_def split: option.splits)
  then have r: "repo (snd (recordPlay h env b trackID)) = db'"
    using ok w by (simp add: recordPlay_unfold split: if_splits)
  show "\<exists>tx1. (if EvtEventType (reportedEvent h env b trackID) \<noteq> EventSkip
            then UpdatePlayStatsTx (repo h) (faults env) (clock env) trackID = Inr tx1
            else tx1 = repo h) \<and>
           (if EvtMood (reportedEvent h env b trackID) \<noteq> []
            then RecordListenEventTx tx1 (faults env) (clock env)
                   (reportedEvent h env b trackID) = Inr (repo (snd (recordPlay h env b trackID)))
            else repo (snd (recordPlay h env b trackID)) = tx1)"
    unfolding r by (rule durableWrites_ok [OF w])
qed

lemma catalogue_lookup_1:
  "lookupTrack catalogue noFaults 1 =
     Some (scanTrackRow catalogue (catalogueRow 1 ''focus/track1.mp3'' ''focus''))"
  by (simp add: lookupTrack_def GetByID_def noFaults_def catalogue_def catalogueRow_def)

theorem recordPlay_atomic_witness:
  "(\<exists>tx1. UpdatePlayStatsTx (repo (freshHandler :: unit Handler)) (faults insertFails)
             (clock insertFails) 1 = Inr tx1) \<and>
   RecordListenEventTx_fails (faults insertFails) \<and>
   recordPlay (freshHandler :: unit Handler) insertFails BodyNil 1 =
     (Error 500 ''failed to record play'', freshHandler)"
proof -
  have f: "faults insertFails = noFaults\<lparr>RecordListenEventTx_fails := True\<rparr>"
    by (simp add: insertFails_def)
  have l: "lookupTrack (repo (freshHandler :: unit Handler)) (faults insertFails) 1 =
             Some (scanTrackRow catalogue (catalogueRow 1 ''focus/track1.mp3'' ''focus''))"
    using catalogue_lookup_1
    by (simp add: f freshHandler_def lookupTrack_def GetByID_def noFaults_def)
  have e: "reportedEvent (freshHandler :: unit Handler) insertFails BodyNil 1 =
             \<lparr>EvtTrackID = 1, EvtMood = ''focus'', EvtEventType = ''play'',
              EvtListenSeconds = 0, EvtPlaylistPosition = None\<rparr>"
    unfolding reportedEvent_def l
    by (simp add: fillMood_def fillDefaults_def decodeBody_def zeroListenEvent_def EventPlay_def
                  scanTrackRow_def catalogueRow_def)
  have u: "\<exists>tx1. UpdatePlayStatsTx (repo (freshHandler :: unit Handler)) (faults insertFails)
              (clock insertFails) 1 = Inr tx1"
    by (simp add: f UpdatePlayStatsTx_def freshHandler_def catalogue_def catalogueRow_def
                  noFaults_def)
  have hyp: "validEventTypes (EvtEventType (reportedEvent (freshHandler :: unit Handler) insertFails BodyNil 1)) \<and>
    (BeginTx_fails (faults insertFails) \<or>
     (UpdatePlayStatsTx_fails (faults insertFails) \<and>
        EvtEventType (reportedEvent (freshHandler :: unit Handler) insertFails BodyNil 1) \<noteq> EventSkip) \<or>
     (RecordListenEventTx_fails (faults insertFails) \<and>
        EvtMood (reportedEvent (freshHandler :: unit Handler) insertFails BodyNil 1) \<noteq> []) \<or>
     Commit_fails (faults insertFails))"
    unfolding e by (simp add: f validEventTypes_def EventPlay_def)
  have r: "recordPlay (freshHandler :: unit Handler) insertFails BodyNil 1 =
             (Error 500 ''failed to record play'', freshHandler)"
    by (rule recordPlay_atomic [THEN conjunct2, THEN conjunct1, rule_format, OF hyp])
  have fl: "RecordListenEventTx_fails (faults insertFails)" by (simp add: f)
  show ?thesis by (intro conjI) (rule u fl r)+
qed






lemma recordPlay_ok_writes:
  assumes "fst (recordPlay h env b i) = OK"
  shows "durableWrites (repo h) (faults env) (clock env) (reportedEvent h env b i) i
           = Inr (repo (snd (recordPlay h env b i)))"
proof -
  obtain db' where
    w: "durableWrites (repo h) (faults env) (clock env) (reportedEvent h env b i) i = Inr db'"
    using assms by (auto simp: recordPlay_unfold split: if_splits sum.splits)
  have "repo (afterCommit (h\<lparr>repo := db'\<rparr>) env evt track i) = db'" for evt track
    by (simp add: afterCommit_def Let_def split: option.splits)
  then have "repo (snd (recordPlay h env b i)) = db'"
    using assms w by (simp add: recordPlay_unfold split: if_splits)
  then show ?thesis using w by simp
qed

lemma durableWrites_listen_events:
  assumes "durableWrites db fl now evt i = Inr db'"
  shows "listen_events_tbl db' =
           (if EvtMood evt \<noteq> []
            then listen_events_tbl db @
                   [\<lparr>le_id = listen_events_seq db + 1, le_track_id = EvtTrackID evt,
                     le_mood = EvtMood evt, le_event_type = EvtEventType evt,
                     le_listen_seconds = EvtListenSeconds evt,
                     le_playlist_position = EvtPlaylistPosition evt,
                     le_created_at = RFC3339 now\<rparr>]
            else listen_events_tbl db)"
proof -
  obtain tx1 where
    u: "if EvtEventType evt \<noteq> EventSkip then UpdatePlayStatsTx db fl now i = Inr tx1 else tx1 = db"
    and r: "if EvtMood evt \<noteq> [] then RecordListenEventTx tx1 fl now evt = Inr db' else db' = tx1"
    using durableWrites_ok [OF assms] by blast
  have f: "listen_events_tbl tx1 = listen_events_tbl db \<and> listen_events_seq tx1 = listen_events_seq db"
    using u UpdatePlayStatsTx_frame [of db fl now i tx1] by (simp split: if_splits)
  show ?thesis
  proof (cases "EvtMood evt \<noteq> []")
    case True
    then have "RecordListenEventTx tx1 fl now evt = Inr db'" using r by simp
    then show ?thesis using True f
      by (auto simp: RecordListenEventTx_def split: if_splits)
  next
    case False
    then show ?thesis using r f by simp
  qed
qed

lemma durableWrites_succeeds:
  assumes "\<not> BeginTx_fails fl" "\<not> UpdatePlayStatsTx_fails fl" "\<not> RecordListenEventTx_fails fl"
          "\<not> Commit_fails fl"
      and "EvtEventType evt = EventSkip \<or> filter (\<lambda>row. t_id row = i) (tracks_tbl db) \<noteq> []"
  shows "\<exists>db'. durableWrites db fl now evt i = Inr db'"
proof -
  have "\<exists>tx1. (if EvtEventType evt \<noteq> EventSkip then UpdatePlayStatsTx db fl now i else Inr db)
                = Inr tx1"
    using assms(2,5) by (auto simp: UpdatePlayStatsTx_def split: list.splits)
  then obtain tx1 where
    "(if EvtEventType evt \<noteq> EventSkip then UpdatePlayStatsTx db fl now i else Inr db) = Inr tx1"
    by blast
  then show ?thesis
    using assms(1,3,4)
    by (simp add: durableWrites_def BeginTx_def RecordListenEventTx_def Commit_def)
qed



lemma noFaults_flags:
  "\<not> BeginTx_fails noFaults" "\<not> UpdatePlayStatsTx_fails noFaults"
  "\<not> RecordListenEventTx_fails noFaults" "\<not> Commit_fails noFaults"
  "\<not> GetByID_fails noFaults" "\<not> GetByMood_fails noFaults"
  by (simp_all add: noFaults_def)


lemma recordPlay_succeeds:
  assumes "validEventTypes (EvtEventType (reportedEvent h env b i))"
      and "faults env = noFaults"
      and "EvtEventType (reportedEvent h env b i) = EventSkip \<or>
           filter (\<lambda>row. t_id row = i) (tracks_tbl (repo h)) \<noteq> []"
  shows "fst (recordPlay h env b i) = OK"
proof -
  obtain db' where
    "durableWrites (repo h) (faults env) (clock env) (reportedEvent h env b i) i = Inr db'"
    using durableWrites_succeeds [OF _ _ _ _ assms(3), of "faults env" "clock env"]
    by (auto simp: assms(2) noFaults_flags)
  then show ?thesis using assms(1) by (simp add: recordPlay_unfold)
qed

lemma quietEnv_faults: "faults quietEnv = noFaults"
  by (simp add: quietEnv_def)

lemma catalogue_has_1:
  "filter (\<lambda>row. t_id row = 1) (tracks_tbl (repo (freshHandler :: 'm Handler))) \<noteq> []"
  by (simp add: freshHandler_def catalogue_def catalogueRow_def)

lemma freshHandler_fields:
  "repo (freshHandler :: 'm Handler) = catalogue"
  "radio (freshHandler :: 'm Handler) = NewManager"
  "playsTotal (freshHandler :: 'm Handler) = 0"
  "cache (freshHandler :: 'm Handler) = New"
  by (simp_all add: freshHandler_def)


lemma negativeReport_event:
  "validEventTypes (EvtEventType (reportedEvent h env negativeReport i))"
  "EvtMood (reportedEvent h env negativeReport i) = ''focus''"
  "EvtListenSeconds (decodeBody negativeReport) = - 5"
  by (simp_all add: negativeReport_def decodeBody_def reportedEvent_def validEventTypes_def
                    EventPlay_def fillDefaults_def fillMood_def split: option.splits)

lemma negativeReport_ok:
  "fst (recordPlay (freshHandler :: unit Handler) quietEnv negativeReport 1) = OK"
  by (rule recordPlay_succeeds)
     (simp_all add: negativeReport_event quietEnv_faults catalogue_has_1)

text \<open>
  C9, as stated, fails: a report for track 1 of the catalogue with
  \<open>listen_seconds = -5\<close> is answered with 200 and the row stored has
  \<open>listen_seconds = -5\<close>.
\<close>

theorem negative_listen_seconds_stored:
  "fst (recordPlay (freshHandler :: unit Handler) quietEnv negativeReport 1) = OK \<and>
   map le_listen_seconds
     (listen_events_tbl (repo (snd (recordPlay (freshHandler :: unit Handler) quietEnv
                                      negativeReport 1)))) = [- 5] \<and>
   \<not> (\<forall>row \<in> set (listen_events_tbl (repo (snd (recordPlay (freshHandler :: unit Handler)
                                      quietEnv negativeReport 1)))). 0 \<le> le_listen_seconds row)"
proof -
  have "listen_events_tbl (repo (snd (recordPlay (freshHandler :: unit Handler) quietEnv
                                      negativeReport 1))) =
        listen_events_tbl catalogue @
          [\<lparr>le_id = listen_events_seq catalogue + 1, le_track_id = 1,
            le_mood = ''focus'',
            le_event_type = EvtEventType (reportedEvent (freshHandler :: unit Handler) quietEnv
                                             negativeReport 1),
            le_listen_seconds = - 5,
            le_playlist_position = EvtPlaylistPosition (decodeBody negativeReport),
            le_created_at = RFC3339 (clock quietEnv)\<rparr>]"
    using durableWrites_listen_events [OF recordPlay_ok_writes [OF negativeReport_ok]]
    by (simp add: negativeReport_event reportedEvent_fields freshHandler_fields)
  then show ?thesis
    using negativeReport_ok by (simp add: catalogue_def)
qed




lemma length_longSkipDocument: "length longSkipDocument = 1140"
proof -
  have "length longSkipDocument = 23 + (1115 + 2)"
    unfolding longSkipDocument_def by (simp only: length_append length_replicate) simp
  then show ?thesis by simp
qed

lemma document_lengths:
  "length skipDocument = 64" "length moodlessSkipDocument = 36"
  "length negativeDocument = 64"
  by (simp_all add: skipDocument_def moodlessSkipDocument_def negativeDocument_def)

lemma short_is_not_long:
  "skipDocument \<noteq> longSkipDocument" "moodlessSkipDocument \<noteq> longSkipDocument"
  "negativeDocument \<noteq> longSkipDocument"
proof -
  have "length d \<noteq> 1140 \<Longrightarrow> d \<noteq> longSkipDocument" for d
    using length_longSkipDocument by auto
  then show "skipDocument \<noteq> longSkipDocument" "moodlessSkipDocument \<noteq> longSkipDocument"
    "negativeDocument \<noteq> longSkipDocument"
    by (simp_all add: document_lengths)
qed

lemma clientDocuments_known:
  "clientDocuments skipDocument =
     Some \<lparr>EvtTrackID = 0, EvtMood = ''focus'', EvtEventType = ''skip'',
           EvtListenSeconds = 45, EvtPlaylistPosition = Some 2\<rparr>"
  "clientDocuments moodlessSkipDocument =
     Some \<lparr>EvtTrackID = 0, EvtMood = [], EvtEventType = ''skip'',
           EvtListenSeconds = 30, EvtPlaylistPosition = None\<rparr>"
  "clientDocuments negativeDocument =
     Some \<lparr>EvtTrackID = 0, EvtMood = ''focus'', EvtEventType = ''play'',
           EvtListenSeconds = - 5, EvtPlaylistPosition = Some 0\<rparr>"
  "clientDocuments longSkipDocument =
     Some \<lparr>EvtTrackID = 0, EvtMood = [], EvtEventType = ''skip'',
           EvtListenSeconds = 0, EvtPlaylistPosition = None\<rparr>"
proof -
  have d: "moodlessSkipDocument \<noteq> skipDocument" "negativeDocument \<noteq> skipDocument"
    "negativeDocument \<noteq> moodlessSkipDocument"
    by (simp_all add: skipDocument_def moodlessSkipDocument_def negativeDocument_def)
  show "clientDocuments skipDocument =
     Some \<lparr>EvtTrackID = 0, EvtMood = ''focus'', EvtEventType = ''skip'',
           EvtListenSeconds = 45, EvtPlaylistPosition = Some 2\<rparr>"
    by (simp add: clientDocuments_def)
  show "clientDocuments moodlessSkipDocument =
     Some \<lparr>EvtTrackID = 0, EvtMood = [], EvtEventType = ''skip'',
           EvtListenSeconds = 30, EvtPlaylistPosition = None\<rparr>"
    using d by (simp add: clientDocuments_def)
  show "clientDocuments negativeDocument =
     Some \<lparr>EvtTrackID = 0, EvtMood = ''focus'', EvtEventType = ''play'',
           EvtListenSeconds = - 5, EvtPlaylistPosition = Some 0\<rparr>"
    using d by (simp add: clientDocuments_def)
  show "clientDocuments longSkipDocument =
     Some \<lparr>EvtTrackID = 0, EvtMood = [], EvtEventType = ''skip'',
           EvtListenSeconds = 0, EvtPlaylistPosition = None\<rparr>"
    using short_is_not_long [symmetric] by (simp add: clientDocuments_def)
qed

lemma clientDocuments_cut: "clientDocuments (take 1024 longSkipDocument) = None"
proof -
  have l: "length (take 1024 longSkipDocument) = 1024"
    by (simp add: length_longSkipDocument)
  have "take 1024 longSkipDocument \<noteq> d" if "length d \<noteq> 1024" for d
    using l that by auto
  then have "take 1024 longSkipDocument \<noteq> skipDocument"
    "take 1024 longSkipDocument \<noteq> moodlessSkipDocument"
    "take 1024 longSkipDocument \<noteq> negativeDocument"
    "take 1024 longSkipDocument \<noteq> longSkipDocument"
    by (simp_all add: document_lengths length_longSkipDocument)
  then show ?thesis by (simp add: clientDocuments_def)
qed

lemma documents_nonempty:
  "skipDocument \<noteq> []" "moodlessSkipDocument \<noteq> []" "negativeDocument \<noteq> []"
  "longSkipDocument \<noteq> []"
  using document_lengths length_longSkipDocument by auto

lemma readBody_documents:
  "readBody clientDocuments (Bytes skipDocument) =
     BodyDecoded \<lparr>EvtTrackID = 0, EvtMood = ''focus'', EvtEventType = ''skip'',
                   EvtListenSeconds = 45, EvtPlaylistPosition = Some 2\<rparr>"
  "readBody clientDocuments (Bytes moodlessSkipDocument) =
     BodyDecoded \<lparr>EvtTrackID = 0, EvtMood = [], EvtEventType = ''skip'',
                   EvtListenSeconds = 30, EvtPlaylistPosition = None\<rparr>"
  "readBody clientDocuments (Bytes negativeDocument) = negativeReport"
  "readBody clientDocuments (Bytes longSkipDocument) = BodyMalformed"
  by (simp_all add: readBody_def Let_def document_lengths length_longSkipDocument
                    clientDocuments_known clientDocuments_cut negativeReport_def
                    documents_nonempty)









text \<open>
  C9, as amended. The row that a successful report inserts into \<open>listen_events\<close>
  carries the seconds-listened value that the handler decoded from the request body, as it
  is: the \<open>ListenSeconds\<close> field that \<open>json.Unmarshal\<close> leaves for the first 1024
  bytes of the body, and zero when nothing was decoded (no body, an unreadable, empty or
  unparseable one). Neither the handler nor the repository clamps it, so the stored value is
  non-negative exactly when the decoded value is.
\<close>

theorem listen_seconds_stored_as_decoded:
  assumes "fst (recordPlayRequest h env unmarshal rb trackID) = OK"
      and "EvtMood (reportedEvent h env (readBody unmarshal rb) trackID) \<noteq> []"
  shows "\<exists>row. listen_events_tbl (repo (snd (recordPlayRequest h env unmarshal rb trackID))) =
                 listen_events_tbl (repo h) @ [row] \<and>
               le_track_id row = trackID \<and>
               le_listen_seconds row = EvtListenSeconds (decodeBody (readBody unmarshal rb)) \<and>
               (0 \<le> le_listen_seconds row) =
                 (0 \<le> EvtListenSeconds (decodeBody (readBody unmarshal rb))) \<and>
               (\<forall>bs e. rb = Bytes bs \<and> take 1024 bs \<noteq> [] \<and> unmarshal (take 1024 bs) = Some e
                  \<longrightarrow> le_listen_seconds row = EvtListenSeconds e) \<and>
               ((\<forall>e. readBody unmarshal rb \<noteq> BodyDecoded e) \<longrightarrow> le_listen_seconds row = 0)"
proof -
  define b where "b = readBody unmarshal rb"
  have ok: "fst (recordPlay h env b trackID) = OK"
    using assms(1) by (simp add: recordPlayRequest_def b_def)
  have m: "EvtMood (reportedEvent h env b trackID) \<noteq> []"
    using assms(2) by (simp add: b_def)
  define row where "row =
    \<lparr>le_id = listen_events_seq (repo h) + 1,
     le_track_id = EvtTrackID (reportedEvent h env b trackID),
     le_mood = EvtMood (reportedEvent h env b trackID),
     le_event_type = EvtEventType (reportedEvent h env b trackID),
     le_listen_seconds = EvtListenSeconds (reportedEvent h env b trackID),
     le_playlist_position = EvtPlaylistPosition (reportedEvent h env b trackID),
     le_created_at = RFC3339 (clock env)\<rparr>"
  have ap: "listen_events_tbl (repo (snd (recordPlay h env b trackID))) =
              listen_events_tbl (repo h) @ [row]"
    using durableWrites_listen_events [OF recordPlay_ok_writes [OF ok]] m
    by (simp add: row_def)
  have id: "le_track_id row = trackID"
    and ls: "le_listen_seconds row = EvtListenSeconds (decodeBody b)"
    by (simp_all add: row_def reportedEvent_fields)
  have dec: "le_listen_seconds row = EvtListenSeconds e"
    if "rb = Bytes bs" "take 1024 bs \<noteq> []" "unmarshal (take 1024 bs) = Some e" for bs e
    using that by (simp add: ls b_def readBody_def decodeBody_def Let_def)
  have zero: "le_listen_seconds row = 0" if "\<forall>e. b \<noteq> BodyDecoded e"
    using that by (cases b) (simp_all add: ls decodeBody_def zeroListenEvent_def)
  have "listen_events_tbl (repo (snd (recordPlayRequest h env unmarshal rb trackID))) =
                 listen_events_tbl (repo h) @ [row] \<and>
               le_track_id row = trackID \<and>
               le_listen_seconds row = EvtListenSeconds (decodeBody (readBody unmarshal rb)) \<and>
               (0 \<le> le_listen_seconds row) =
                 (0 \<le> EvtListenSeconds (decodeBody (readBody unmarshal rb))) \<and>
               (\<forall>bs e. rb = Bytes bs \<and> take 1024 bs \<noteq> [] \<and> unmarshal (take 1024 bs) = Some e
                  \<longrightarrow> le_listen_seconds row = EvtListenSeconds e) \<and>
               ((\<forall>e. readBody unmarshal rb \<noteq> BodyDecoded e) \<longrightarrow> le_listen_seconds row = 0)"
    using ap id ls dec zero
    by (simp add: recordPlayRequest_def b_def [symmetric])
  then show ?thesis by (rule exI)
qed

theorem listen_seconds_stored_as_decoded_witness:
  "fst (recordPlayRequest (freshHandler :: unit Handler) quietEnv clientDocuments
          (Bytes negativeDocument) 1) = OK \<and>
   EvtMood (reportedEvent (freshHandler :: unit Handler) quietEnv
              (readBody clientDocuments (Bytes negativeDocument)) 1) \<noteq> [] \<and>
   map_option EvtListenSeconds (clientDocuments (take 1024 negativeDocument)) = Some (- 5) \<and>
   (\<exists>row. listen_events_tbl (repo (snd (recordPlayRequest (freshHandler :: unit Handler)
              quietEnv clientDocuments (Bytes negativeDocument) 1))) =
            listen_events_tbl (repo (freshHandler :: unit Handler)) @ [row] \<and>
          le_track_id row = 1 \<and> le_listen_seconds row = - 5 \<and> \<not> 0 \<le> le_listen_seconds row)"
proof -
  have ok: "fst (recordPlayRequest (freshHandler :: unit Handler) quietEnv clientDocuments
          (Bytes negativeDocument) 1) = OK"
    by (simp add: recordPlayRequest_def readBody_documents negativeReport_ok)
  have m: "EvtMood (reportedEvent (freshHandler :: unit Handler) quietEnv
              (readBody clientDocuments (Bytes negativeDocument)) 1) \<noteq> []"
    by (simp add: readBody_documents negativeReport_event)
  have t: "take 1024 negativeDocument = negativeDocument"
    by (simp add: document_lengths)
  have d: "map_option EvtListenSeconds (clientDocuments (take 1024 negativeDocument)) = Some (- 5)"
    by (simp add: t clientDocuments_known)
  have v: "EvtListenSeconds (decodeBody (readBody clientDocuments (Bytes negativeDocument))) = - 5"
    by (simp add: readBody_documents negativeReport_event)
  from listen_seconds_stored_as_decoded [OF ok m]
  obtain row where
    "listen_events_tbl (repo (snd (recordPlayRequest (freshHandler :: unit Handler)
              quietEnv clientDocuments (Bytes negativeDocument) 1))) =
            listen_events_tbl (repo (freshHandler :: unit Handler)) @ [row]"
    "le_track_id row = 1" "le_listen_seconds row = - 5"
    unfolding v by (elim exE conjE)
  then have "\<exists>row. listen_events_tbl (repo (snd (recordPlayRequest (freshHandler :: unit Handler)
              quietEnv clientDocuments (Bytes negativeDocument) 1))) =
            listen_events_tbl (repo (freshHandler :: unit Handler)) @ [row] \<and>
          le_track_id row = 1 \<and> le_listen_seconds row = - 5 \<and> \<not> 0 \<le> le_listen_seconds row"
    by (intro exI [of _ row]) simp
  with ok m d show ?thesis by (intro conjI)
qed

subsection \<open>Playlist requests\<close>

lemma items_Cache_Get: "items (snd (Cache_Get c now k)) = items c"
  by (simp add: Cache_Get_def split: option.splits)

lemma Cache_Get_None_iff:
  "fst (Cache_Get c now k) = None \<longleftrightarrow>
     (case items c k of None \<Rightarrow> True | Some e \<Rightarrow> After now (expiresAt e))"
  by (simp add: Cache_Get_def split: option.splits)

lemma Cache_Get_miss_later:
  assumes "fst (Cache_Get c now k) = None" "items c2 k = items c k" "now \<le> now2"
  shows "fst (Cache_Get c2 now2 k) = None"
  using assms by (auto simp: Cache_Get_None_iff After_def split: option.splits)

lemma GetByMood_empty:
  "\<not> GetByMood_fails fl \<Longrightarrow> filter (eligible m instr) (tracks_tbl db) = [] \<Longrightarrow>
   GetByMood db fl m instr = Inr []"
  by (simp add: GetByMood_def)

lemma GetPlaylist_empty:
  "GetByMood db fl (mood r) instr = Inr [] \<Longrightarrow> GetPlaylist r db fl instr = (Inr [], r)"
  by (simp add: GetPlaylist_def)

lemma GetRadio_mood:
  assumes "\<forall>md r. radios mgr md = Some r \<longrightarrow> mood r = md"
  shows "mood (fst (GetRadio mgr sd m)) = m"
  using assms by (auto simp: GetRadio_def NewRadio_def Let_def split: option.splits)

lemma mood_RecordPlay: "mood (RecordPlay r x) = mood r"
  by (simp add: RecordPlay_def Let_def)

lemma mood_GetPlaylist: "mood (snd (GetPlaylist r db fl instr)) = mood r"
  by (simp add: GetPlaylist_def shuffleWithRecencyLocked_def partitionRecent_filter Let_def
           split: sum.splits prod.splits)

lemma GetRadio_registry:
  assumes "\<forall>md r. radios mgr md = Some r \<longrightarrow> mood r = md"
  shows "\<forall>md r. radios (snd (GetRadio mgr sd m)) md = Some r \<longrightarrow> mood r = md"
  using assms by (auto simp: GetRadio_def NewRadio_def Let_def split: option.splits)

lemma Manager_GetPlaylist_fst:
  "fst (Manager_GetPlaylist mgr sd db fl m instr) =
     fst (GetPlaylist (fst (GetRadio mgr sd m)) db fl instr)"
  by (simp add: Manager_GetPlaylist_def Let_def split: prod.splits)

lemma Manager_GetPlaylist_registry:
  assumes "\<forall>md r. radios mgr md = Some r \<longrightarrow> mood r = md"
  shows "\<forall>md r. radios (snd (Manager_GetPlaylist mgr sd db fl m instr)) md = Some r
                 \<longrightarrow> mood r = md"
proof -
  have "mood (snd (GetPlaylist (fst (GetRadio mgr sd m)) db fl instr)) = m"
    by (simp add: mood_GetPlaylist GetRadio_mood [OF assms])
  then show ?thesis
    using GetRadio_registry [OF assms, of sd m]
    by (auto simp: Manager_GetPlaylist_def Let_def split: prod.splits)
qed

lemma Manager_RecordPlay_registry:
  assumes "\<forall>md r. radios mgr md = Some r \<longrightarrow> mood r = md"
  shows "\<forall>md r. radios (Manager_RecordPlay mgr sd m x) md = Some r \<longrightarrow> mood r = md"
proof -
  have "mood (RecordPlay (fst (GetRadio mgr sd m)) x) = m"
    by (simp add: mood_RecordPlay GetRadio_mood [OF assms])
  then show ?thesis
    using GetRadio_registry [OF assms, of sd m]
    by (auto simp: Manager_RecordPlay_def Let_def split: prod.splits)
qed

lemma getPlaylist_hit:
  "fst (Cache_Get (cache h) (clock env) (playlistCacheKey m instr)) = Some v \<Longrightarrow>
   getPlaylist h env m instr =
     (JSON ''HIT'' v, h\<lparr>cache := snd (Cache_Get (cache h) (clock env) (playlistCacheKey m instr))\<rparr>)"
  by (simp add: getPlaylist_def Let_def split_beta)

lemma getPlaylist_miss:
  assumes "fst (Cache_Get (cache h) (clock env) (playlistCacheKey m instr)) = None"
  shows "getPlaylist h env m instr =
     (let c1 = snd (Cache_Get (cache h) (clock env) (playlistCacheKey m instr));
          h1 = h\<lparr>cache := c1,
                 radio := snd (Manager_GetPlaylist (radio h) (seed env) (repo h) (faults env) m instr)\<rparr>
      in case fst (Manager_GetPlaylist (radio h) (seed env) (repo h) (faults env) m instr) of
           Inl err \<Rightarrow> (Error 500 ''Internal error'', h1)
         | Inr ts \<Rightarrow>
             if ts \<noteq> []
             then (JSON ''MISS'' (PlaylistTracks (toPlaylistTracks (resolveAudioURLs (audioResolver h) ts))),
                   h1\<lparr>cache := Cache_Set c1 (clock env) (playlistCacheKey m instr)
                      (PlaylistTracks (toPlaylistTracks (resolveAudioURLs (audioResolver h) ts)))\<rparr>)
             else (JSON ''MISS'' (PlaylistTracks []), h1))"
  using assms unfolding getPlaylist_def Let_def
  by (auto simp: toPlaylistTracks_def resolveAudioURLs_def split: prod.splits sum.splits)

lemma slim_empty_iff: "toPlaylistTracks (resolveAudioURLs f ts) = [] \<longleftrightarrow> ts = []"
  by (simp add: toPlaylistTracks_def resolveAudioURLs_def)

lemma Split_until_sep:
  "sep \<notin> set m \<Longrightarrow> Split (m @ sep # rest) sep = m # Split rest sep"
  by (induction m) (auto split: list.splits)

lemma Split_playlist: "Split ''playlist'' CHR ''/'' = [''playlist'']"
  by simp

lemma TrimPrefix_append: "TrimPrefix (p @ s) p = s"
  by (simp add: TrimPrefix_def)

lemma handleMoods_route:
  assumes "CHR ''/'' \<notin> set m"
  shows "handleMoods h env (''/api/moods/'' @ m @ ''/playlist'') q =
           (if \<not> validMoods m then (Error 404 ''Unknown mood'', h)
            else getPlaylist h env m (q = ''true''))"
proof -
  have "Split (m @ ''/playlist'') CHR ''/'' = [m, ''playlist'']"
    using Split_until_sep [OF assms, of "''playlist''"] Split_playlist by simp
  then show ?thesis
    unfolding handleMoods_def TrimPrefix_append by (simp add: Let_def)
qed

lemma validMoods_no_slash: "validMoods m \<Longrightarrow> CHR ''/'' \<notin> set m"
  by (auto simp: validMoods_def)

lemma getPlaylist_empty_result:
  assumes "fst (Cache_Get (cache h) (clock env) (playlistCacheKey m instr)) = None"
      and "\<forall>md r. radios (radio h) md = Some r \<longrightarrow> mood r = md"
      and "\<not> GetByMood_fails (faults env)"
      and "filter (eligible m instr) (tracks_tbl (repo h)) = []"
  shows "fst (getPlaylist h env m instr) = JSON ''MISS'' (PlaylistTracks [])"
proof -
  have "mood (fst (GetRadio (radio h) (seed env) m)) = m"
    by (rule GetRadio_mood [OF assms(2)])
  then have "GetByMood (repo h) (faults env) (mood (fst (GetRadio (radio h) (seed env) m))) instr
               = Inr []"
    using GetByMood_empty [OF assms(3,4)] by simp
  then have "fst (Manager_GetPlaylist (radio h) (seed env) (repo h) (faults env) m instr) = Inr []"
    by (simp add: Manager_GetPlaylist_fst GetPlaylist_empty)
  then show ?thesis
    by (simp add: getPlaylist_miss [OF assms(1)] Let_def)
qed

text \<open>
  C7, as amended. The engine's \<open>GetPlaylist\<close> returns the empty list, not an error,
  whenever the store query succeeds with no eligible track, whatever the mood name (also one
  the catalogue does not know). A playlist request for one of the four valid moods that
  misses the cache and finds no eligible track is answered with status 200 and the empty
  list (the registry maps every mood to the engine of that mood, as it does from
  \<open>NewManager\<close> on). A request whose mood is not one of the valid moods is answered with
  404 \<open>Unknown mood\<close> and changes nothing.
\<close>

theorem empty_playlist_is_not_an_error:
  "(\<not> GetByMood_fails fl \<and> filter (eligible (mood r) instrumentalOnly) (tracks_tbl db) = [] \<longrightarrow>
      GetPlaylist r db fl instrumentalOnly = (Inr [], r)) \<and>
   (validMoods m \<and>
    (\<forall>md r'. radios (radio h) md = Some r' \<longrightarrow> mood r' = md) \<and>
    fst (Cache_Get (cache h) (clock env) (playlistCacheKey m (q = ''true''))) = None \<and>
    \<not> GetByMood_fails (faults env) \<and>
    filter (eligible m (q = ''true'')) (tracks_tbl (repo h)) = [] \<longrightarrow>
      fst (handleMoods h env (''/api/moods/'' @ m @ ''/playlist'') q)
        = JSON ''MISS'' (PlaylistTracks [])) \<and>
   (\<not> validMoods m \<and> CHR ''/'' \<notin> set m \<longrightarrow>
      handleMoods h env (''/api/moods/'' @ m @ ''/playlist'') q = (Error 404 ''Unknown mood'', h))"
proof (intro conjI impI)
  assume "\<not> GetByMood_fails fl \<and> filter (eligible (mood r) instrumentalOnly) (tracks_tbl db) = []"
  then show "GetPlaylist r db fl instrumentalOnly = (Inr [], r)"
    by (simp add: GetPlaylist_empty GetByMood_empty)
next
  assume a: "validMoods m \<and>
    (\<forall>md r'. radios (radio h) md = Some r' \<longrightarrow> mood r' = md) \<and>
    fst (Cache_Get (cache h) (clock env) (playlistCacheKey m (q = ''true''))) = None \<and>
    \<not> GetByMood_fails (faults env) \<and>
    filter (eligible m (q = ''true'')) (tracks_tbl (repo h)) = []"
  then have vm: "validMoods m" by simp
  have "handleMoods h env (''/api/moods/'' @ m @ ''/playlist'') q
               = getPlaylist h env m (q = ''true'')"
    using handleMoods_route [OF validMoods_no_slash [OF vm], of h env q] vm by simp
  moreover have "fst (getPlaylist h env m (q = ''true'')) = JSON ''MISS'' (PlaylistTracks [])"
    using a by (intro getPlaylist_empty_result) simp_all
  ultimately show "fst (handleMoods h env (''/api/moods/'' @ m @ ''/playlist'') q)
        = JSON ''MISS'' (PlaylistTracks [])"
    by simp
next
  assume "\<not> validMoods m \<and> CHR ''/'' \<notin> set m"
  then show "handleMoods h env (''/api/moods/'' @ m @ ''/playlist'') q
               = (Error 404 ''Unknown mood'', h)"
    using handleMoods_route [of m h env q] by simp
qed

lemma catalogue_no_mood:
  "filter (eligible ''unknown'' instr) (tracks_tbl catalogue) = []"
  "filter (eligible ''energize'' instr) (tracks_tbl catalogue) = []"
  "filter (\<lambda>row. t_mood row = ''unknown'') (tracks_tbl catalogue) = []"
  by (simp_all add: eligible_def catalogue_def catalogueRow_def)

lemma New_miss: "fst (Cache_Get New now k) = None"
  by (simp add: New_def Cache_Get_def)

lemma fresh_manager: "\<forall>md r'. radios (radio (freshHandler :: 'm Handler)) md = Some r' \<longrightarrow> mood r' = md"
  by (simp add: freshHandler_def NewManager_def)

text \<open>
  C7, as stated, fails: no track of the catalogue has the mood \<open>unknown\<close> and the
  engine returns the empty list for it, but the request
  \<open>/api/moods/unknown/playlist\<close> is answered with 404 \<open>Unknown mood\<close>.
\<close>

theorem unknown_mood_is_rejected:
  "filter (\<lambda>row. t_mood row = ''unknown'') (tracks_tbl catalogue) = [] \<and>
   fst (GetPlaylist (NewRadio ''unknown'' countingRng) catalogue noFaults False) = Inr [] \<and>
   fst (handleMoods (freshHandler :: unit Handler) quietEnv ''/api/moods/unknown/playlist'' [])
     = Error 404 ''Unknown mood''"
proof -
  have "mood (NewRadio ''unknown'' countingRng) = ''unknown''"
    by (simp add: NewRadio_def)
  then have "GetByMood catalogue noFaults (mood (NewRadio ''unknown'' countingRng)) False = Inr []"
    by (simp add: GetByMood_empty noFaults_flags catalogue_no_mood)
  then have e: "fst (GetPlaylist (NewRadio ''unknown'' countingRng) catalogue noFaults False) = Inr []"
    by (simp add: GetPlaylist_empty)
  have "\<not> validMoods ''unknown''" "CHR ''/'' \<notin> set ''unknown''"
    by (simp_all add: validMoods_def)
  then have "handleMoods (freshHandler :: unit Handler) quietEnv
               (''/api/moods/'' @ ''unknown'' @ ''/playlist'') [] =
             (Error 404 ''Unknown mood'', freshHandler)"
    using handleMoods_route [of "''unknown''" "freshHandler :: unit Handler" quietEnv "[]"]
    by simp
  then show ?thesis using e by (simp add: catalogue_no_mood)
qed

theorem empty_playlist_is_not_an_error_witness:
  "validMoods ''energize'' \<and> \<not> validMoods ''unknown'' \<and>
   GetPlaylist (NewRadio ''unknown'' countingRng) catalogue noFaults False
     = (Inr [], NewRadio ''unknown'' countingRng) \<and>
   fst (handleMoods (freshHandler :: unit Handler) quietEnv ''/api/moods/energize/playlist'' [])
     = JSON ''MISS'' (PlaylistTracks []) \<and>
   handleMoods (freshHandler :: unit Handler) quietEnv ''/api/moods/unknown/playlist'' []
     = (Error 404 ''Unknown mood'', freshHandler)"
proof -
  note T = empty_playlist_is_not_an_error
  have v: "validMoods ''energize''" "\<not> validMoods ''unknown''" "CHR ''/'' \<notin> set ''unknown''"
    by (simp_all add: validMoods_def)
  have h1: "\<not> GetByMood_fails noFaults \<and>
            filter (eligible (mood (NewRadio ''unknown'' countingRng)) False) (tracks_tbl catalogue) = []"
    by (simp add: noFaults_flags NewRadio_def catalogue_no_mood)
  have c1: "GetPlaylist (NewRadio ''unknown'' countingRng) catalogue noFaults False
              = (Inr [], NewRadio ''unknown'' countingRng)"
    by (rule T [THEN conjunct1, rule_format, OF h1])
  have h2: "validMoods ''energize'' \<and>
    (\<forall>md r'. radios (radio (freshHandler :: unit Handler)) md = Some r' \<longrightarrow> mood r' = md) \<and>
    fst (Cache_Get (cache (freshHandler :: unit Handler)) (clock quietEnv)
           (playlistCacheKey ''energize'' ([] = ''true''))) = None \<and>
    \<not> GetByMood_fails (faults quietEnv) \<and>
    filter (eligible ''energize'' ([] = ''true'')) (tracks_tbl (repo (freshHandler :: unit Handler))) = []"
    using v(1) fresh_manager
    by (simp add: New_miss quietEnv_faults noFaults_flags freshHandler_fields
                  catalogue_no_mood)
  have c2: "fst (handleMoods (freshHandler :: unit Handler) quietEnv
                   (''/api/moods/'' @ ''energize'' @ ''/playlist'') [])
              = JSON ''MISS'' (PlaylistTracks [])"
    by (rule T [THEN conjunct2, THEN conjunct1, rule_format, OF h2])
  have h3: "\<not> validMoods ''unknown'' \<and> CHR ''/'' \<notin> set ''unknown''"
    using v by simp
  have c3: "handleMoods (freshHandler :: unit Handler) quietEnv
              (''/api/moods/'' @ ''unknown'' @ ''/playlist'') []
              = (Error 404 ''Unknown mood'', freshHandler)"
    by (rule T [THEN conjunct2, THEN conjunct2, rule_format, OF h3])
  show ?thesis using v c1 c2 c3 by simp
qed

lemma getPlaylist_hit_effect:
  assumes "fst (Cache_Get (cache h) (clock env) (playlistCacheKey m instr)) = Some v"
  shows "fst (getPlaylist h env m instr) = JSON ''HIT'' v"
    and "items (cache (snd (getPlaylist h env m instr))) = items (cache h)"
  by (simp_all add: getPlaylist_hit [OF assms] items_Cache_Get)

lemma getPlaylist_miss_effect:
  assumes "fst (Cache_Get (cache h) (clock env) (playlistCacheKey m instr)) = None"
  shows "(fst (getPlaylist h env m instr) = Error 500 ''Internal error'' \<and>
            items (cache (snd (getPlaylist h env m instr))) = items (cache h)) \<or>
         (fst (getPlaylist h env m instr) = JSON ''MISS'' (PlaylistTracks []) \<and>
            items (cache (snd (getPlaylist h env m instr))) = items (cache h)) \<or>
         (\<exists>slim. slim \<noteq> [] \<and>
            fst (getPlaylist h env m instr) = JSON ''MISS'' (PlaylistTracks slim) \<and>
            items (cache (snd (getPlaylist h env m instr))) =
              (items (cache h))(playlistCacheKey m instr \<mapsto>
                 \<lparr>val = PlaylistTracks slim, expiresAt = clock env + DefaultTTL\<rparr>))"
proof (cases "fst (Manager_GetPlaylist (radio h) (seed env) (repo h) (faults env) m instr)")
  case (Inl err)
  then have "fst (getPlaylist h env m instr) = Error 500 ''Internal error'' \<and>
             items (cache (snd (getPlaylist h env m instr))) = items (cache h)"
    by (simp add: getPlaylist_miss [OF assms] Let_def items_Cache_Get)
  then show ?thesis by (rule disjI1)
next
  case (Inr ts)
  show ?thesis
  proof (cases "ts = []")
    case True
    then have "fst (getPlaylist h env m instr) = JSON ''MISS'' (PlaylistTracks []) \<and>
               items (cache (snd (getPlaylist h env m instr))) = items (cache h)"
      using Inr by (simp add: getPlaylist_miss [OF assms] Let_def items_Cache_Get)
    then show ?thesis by (intro disjI2 disjI1)
  next
    case False
    define slim where "slim = toPlaylistTracks (resolveAudioURLs (audioResolver h) ts)"
    have ne: "slim \<noteq> []"
      unfolding slim_def using False by (simp add: slim_empty_iff)
    have "fst (getPlaylist h env m instr) = JSON ''MISS'' (PlaylistTracks slim) \<and>
          items (cache (snd (getPlaylist h env m instr))) =
            (items (cache h))(playlistCacheKey m instr \<mapsto>
               \<lparr>val = PlaylistTracks slim, expiresAt = clock env + DefaultTTL\<rparr>)"
      using Inr False unfolding slim_def
      by (simp add: getPlaylist_miss [OF assms] Let_def items_Cache_Get Cache_Set_def)
    with ne have "\<exists>slim. slim \<noteq> [] \<and>
            fst (getPlaylist h env m instr) = JSON ''MISS'' (PlaylistTracks slim) \<and>
            items (cache (snd (getPlaylist h env m instr))) =
              (items (cache h))(playlistCacheKey m instr \<mapsto>
                 \<lparr>val = PlaylistTracks slim, expiresAt = clock env + DefaultTTL\<rparr>)"
      by (intro exI [of _ slim]) simp
    then show ?thesis by (intro disjI2)
  qed
qed

lemma getPlaylist_miss_not_hit:
  assumes "fst (Cache_Get (cache h) (clock env) (playlistCacheKey m instr)) = None"
  shows "fst (getPlaylist h env m instr) \<noteq> JSON ''HIT'' v"
  using getPlaylist_miss_effect [OF assms]
  by (elim disjE exE conjE) simp_all

lemma getPlaylist_empty_was_miss:
  assumes "fst (getPlaylist h env m instr) = JSON ''MISS'' (PlaylistTracks [])"
  shows "fst (Cache_Get (cache h) (clock env) (playlistCacheKey m instr)) = None"
proof (cases "fst (Cache_Get (cache h) (clock env) (playlistCacheKey m instr))")
  case None
  then show ?thesis .
next
  case (Some v)
  from getPlaylist_hit_effect(1) [OF Some] assms show ?thesis by simp
qed

lemma getPlaylist_empty_items:
  assumes "fst (getPlaylist h env m instr) = JSON ''MISS'' (PlaylistTracks [])"
  shows "items (cache (snd (getPlaylist h env m instr))) = items (cache h)"
  using getPlaylist_miss_effect [OF getPlaylist_empty_was_miss [OF assms]] assms
  by (elim disjE exE conjE) simp_all

lemma getPlaylist_items_effect:
  "items (cache (snd (getPlaylist h env m instr))) = items (cache h) \<or>
    (\<exists>slim. slim \<noteq> [] \<and>
       fst (getPlaylist h env m instr) = JSON ''MISS'' (PlaylistTracks slim) \<and>
       items (cache (snd (getPlaylist h env m instr))) =
         (items (cache h))(playlistCacheKey m instr \<mapsto>
            \<lparr>val = PlaylistTracks slim, expiresAt = clock env + DefaultTTL\<rparr>))"
proof (cases "fst (Cache_Get (cache h) (clock env) (playlistCacheKey m instr))")
  case None
  from getPlaylist_miss_effect [OF None] show ?thesis
    by (elim disjE conjE) (simp_all only: simp_thms)
next
  case (Some v)
  from getPlaylist_hit_effect(2) [OF Some] show ?thesis by (rule disjI1)
qed

text \<open>
  C10. A playlist request that computes an empty track list leaves the entries of the
  cache as they were, and from then on, as long as the entry of that mood-and-flag key
  is not rewritten, \<open>Get\<close> for the key misses and the request is never served from the
  cache. Any playlist request leaves the entries unchanged or stores, under its own key, a
  non-empty playlist (the one it returns) with the default TTL.
  (\<open>Get\<close> counts the miss in the cache's statistics; the entries are what is unchanged.)
\<close>

theorem getPlaylist_caches_only_nonempty:
  "(fst (getPlaylist h env m instrumentalOnly) = JSON ''MISS'' (PlaylistTracks []) \<longrightarrow>
      items (cache (snd (getPlaylist h env m instrumentalOnly))) = items (cache h) \<and>
      (\<forall>h2 env2.
         items (cache h2) (playlistCacheKey m instrumentalOnly) =
           items (cache (snd (getPlaylist h env m instrumentalOnly)))
             (playlistCacheKey m instrumentalOnly) \<and>
         clock env \<le> clock env2 \<longrightarrow>
           fst (Cache_Get (cache h2) (clock env2) (playlistCacheKey m instrumentalOnly)) = None \<and>
           (\<forall>v. fst (getPlaylist h2 env2 m instrumentalOnly) \<noteq> JSON ''HIT'' v))) \<and>
   (items (cache (snd (getPlaylist h env m instrumentalOnly))) = items (cache h) \<or>
    (\<exists>slim. slim \<noteq> [] \<and>
       fst (getPlaylist h env m instrumentalOnly) = JSON ''MISS'' (PlaylistTracks slim) \<and>
       items (cache (snd (getPlaylist h env m instrumentalOnly))) =
         (items (cache h))(playlistCacheKey m instrumentalOnly \<mapsto>
            \<lparr>val = PlaylistTracks slim, expiresAt = clock env + DefaultTTL\<rparr>)))"
proof (intro conjI impI allI)
  assume e: "fst (getPlaylist h env m instrumentalOnly) = JSON ''MISS'' (PlaylistTracks [])"
  show same: "items (cache (snd (getPlaylist h env m instrumentalOnly))) = items (cache h)"
    by (rule getPlaylist_empty_items [OF e])
  have miss: "fst (Cache_Get (cache h) (clock env) (playlistCacheKey m instrumentalOnly)) = None"
    by (rule getPlaylist_empty_was_miss [OF e])
  fix h2 :: "'a Handler" and env2 :: Env
  assume a: "items (cache h2) (playlistCacheKey m instrumentalOnly) =
           items (cache (snd (getPlaylist h env m instrumentalOnly)))
             (playlistCacheKey m instrumentalOnly) \<and>
         clock env \<le> clock env2"
  then have i: "items (cache h2) (playlistCacheKey m instrumentalOnly) =
             items (cache h) (playlistCacheKey m instrumentalOnly)"
    by (simp add: same)
  have t: "clock env \<le> clock env2" using a by simp
  show later: "fst (Cache_Get (cache h2) (clock env2) (playlistCacheKey m instrumentalOnly)) = None"
    by (rule Cache_Get_miss_later [OF miss i t])
  fix v
  show "fst (getPlaylist h2 env2 m instrumentalOnly) \<noteq> JSON ''HIT'' v"
    by (rule getPlaylist_miss_not_hit [OF later])
next
  show "items (cache (snd (getPlaylist h env m instrumentalOnly))) = items (cache h) \<or>
    (\<exists>slim. slim \<noteq> [] \<and>
       fst (getPlaylist h env m instrumentalOnly) = JSON ''MISS'' (PlaylistTracks slim) \<and>
       items (cache (snd (getPlaylist h env m instrumentalOnly))) =
         (items (cache h))(playlistCacheKey m instrumentalOnly \<mapsto>
            \<lparr>val = PlaylistTracks slim, expiresAt = clock env + DefaultTTL\<rparr>))"
    by (rule getPlaylist_items_effect)
qed

lemma energize_empty:
  "fst (getPlaylist (freshHandler :: unit Handler) quietEnv ''energize'' False)
     = JSON ''MISS'' (PlaylistTracks [])"
  by (rule getPlaylist_empty_result)
     (simp_all add: freshHandler_fields New_miss fresh_manager [unfolded freshHandler_fields]
                    quietEnv_faults noFaults_flags catalogue_no_mood)

theorem getPlaylist_caches_only_nonempty_witness:
  "fst (getPlaylist (freshHandler :: unit Handler) quietEnv ''energize'' False)
     = JSON ''MISS'' (PlaylistTracks []) \<and>
   items (cache (snd (getPlaylist (freshHandler :: unit Handler) quietEnv ''energize'' False)))
     = items (cache (freshHandler :: unit Handler)) \<and>
   clock quietEnv \<le> clock (quietEnv\<lparr>clock := 2000000000\<rparr>) \<and>
   fst (Cache_Get
          (cache (snd (getPlaylist (freshHandler :: unit Handler) quietEnv ''energize'' False)))
          (clock (quietEnv\<lparr>clock := 2000000000\<rparr>)) (playlistCacheKey ''energize'' False)) = None"
proof -
  note T = getPlaylist_caches_only_nonempty
             [of "freshHandler :: unit Handler" quietEnv "''energize''" False,
              THEN conjunct1, rule_format, OF energize_empty]
  have t: "clock quietEnv \<le> clock (quietEnv\<lparr>clock := 2000000000\<rparr>)"
    by (simp add: quietEnv_def)
  have again: "items (cache (snd (getPlaylist (freshHandler :: unit Handler) quietEnv ''energize'' False)))
            (playlistCacheKey ''energize'' False) =
          items (cache (snd (getPlaylist (freshHandler :: unit Handler) quietEnv ''energize'' False)))
            (playlistCacheKey ''energize'' False) \<and>
        clock quietEnv \<le> clock (quietEnv\<lparr>clock := 2000000000\<rparr>)"
    using t by simp
  have c1: "items (cache (snd (getPlaylist (freshHandler :: unit Handler) quietEnv ''energize'' False)))
     = items (cache (freshHandler :: unit Handler))"
    by (rule T [THEN conjunct1])
  have c2: "fst (Cache_Get
          (cache (snd (getPlaylist (freshHandler :: unit Handler) quietEnv ''energize'' False)))
          (clock (quietEnv\<lparr>clock := 2000000000\<rparr>)) (playlistCacheKey ''energize'' False)) = None"
    by (rule T [THEN conjunct2, rule_format, OF again, THEN conjunct1])
  show ?thesis
    by (intro conjI) (rule energize_empty c1 t c2)+
qed

end
